theory Spec2Isabelle
  imports Complex_Main "HOL-Library.Word"
begin

unbundle bit_operations_syntax

section \<open>Strings and 32-bit integer operators of the host language\<close>

text \<open>
  A string of the source language is a sequence of UTF-16 code units; \<open>charCodeAt\<close>
  reads one of them as a number between 0 and 65535. String literals of the source are
  written \<open>js ''...''\<close>.
\<close>

type_synonym jsstring = "16 word list"

definition js :: "string \<Rightarrow> jsstring" where
  "js s = map of_char s"

text \<open>
  \<open>ToInt32\<close>: the conversion every bitwise operator applies to its operands and its
  result. The numbers that reach it in \<open>simpleHash\<close> are integers far below \<open>2 ^ 53\<close>,
  so the double arithmetic around it is exact and is written on \<open>int\<close>.
\<close>

definition toInt32 :: "int \<Rightarrow> int" where
  "toInt32 x = (let m = x mod 2 ^ 32 in if m \<ge> 2 ^ 31 then m - 2 ^ 32 else m)"

text \<open>\<open>a << n\<close>\<close>

definition js_shl :: "int \<Rightarrow> nat \<Rightarrow> int" where
  "js_shl a n = toInt32 (toInt32 a * 2 ^ (n mod 32))"

text \<open>\<open>a & b\<close>\<close>

definition js_and :: "int \<Rightarrow> int \<Rightarrow> int" where
  "js_and a b = toInt32 a AND toInt32 b"

text \<open>\<open>a % b\<close> on integers, \<open>b\<close> not zero: the remainder has the sign of the dividend.\<close>

definition js_rem :: "int \<Rightarrow> int \<Rightarrow> int" where
  "js_rem a b = sgn a * (\<bar>a\<bar> mod \<bar>b\<bar>)"

section \<open>Rollout hashing (rollout.ts)\<close>

text \<open>
  The body of \<open>simpleHash\<close>: the \<open>for\<close> loop over the code units, with the running
  \<open>hash\<close> as the accumulator.
\<close>

fun hashLoop :: "int \<Rightarrow> jsstring \<Rightarrow> int" where
  "hashLoop hash [] = hash"
| "hashLoop hash (c # cs) =
     (let char = uint c;
          hash1 = (js_shl hash 5 - hash) + char;
          hash2 = js_and hash1 hash1
      in hashLoop hash2 cs)"

definition simpleHash :: "jsstring \<Rightarrow> int" where
  "simpleHash str = \<bar>hashLoop 0 str\<bar>"

definition computeRolloutBucket :: "jsstring \<Rightarrow> jsstring \<Rightarrow> int" where
  "computeRolloutBucket userId flagKey =
     (let combined = userId @ js '':'' @ flagKey;
          hash = simpleHash combined
      in js_rem hash 101)"

subsection \<open>The reference algorithm, as the specification words it\<close>

text \<open>
  \<open>h = h * 31 + charCode\<close>, truncated to a 32-bit signed integer, for every character,
  starting at 0; then the absolute value, reduced modulo 101.
\<close>

definition refHash :: "jsstring \<Rightarrow> int" where
  "refHash s = foldl (\<lambda>h c. signed_take_bit 31 (h * 31 + uint c)) 0 s"

definition refBucket :: "jsstring \<Rightarrow> jsstring \<Rightarrow> int" where
  "refBucket userId flagKey = \<bar>refHash (userId @ js '':'' @ flagKey)\<bar> mod 101"


section \<open>Values of the host language\<close>

text \<open>
  Numbers. Every finite double is a rational, and comparison and \<open>===\<close> on finite
  doubles are comparison and equality of those rationals (the two zeros compare equal
  and print alike, so they are one value here). What depends on the binary format,
  printing a number that is not a small integer and parsing a string, is taken from the
  runtime (\<open>jsruntime\<close> below).
\<close>

datatype jsnum = NaN | PosInf | NegInf | Fin rat

text \<open>
  Data: the values an attribute or a comparison value can hold, which are what JSON gives
  and \<open>undefined\<close>. An object is the list of its own properties, looked up by key; its
  prototype is \<open>Object.prototype\<close>, and the prototype of an array is
  \<open>Array.prototype\<close>.
\<close>

datatype jsdata =
    JUndefined
  | JNull
  | JBool bool
  | JNum jsnum
  | JStr jsstring
  | JArr "jsdata list"
  | JObj "(jsstring \<times> jsdata) list"

text \<open>
  The built-in objects that a property read reaches through a prototype: the two
  prototypes, and the functions they hold, each named by its property key.
\<close>

datatype native =
    ObjectPrototype
  | ArrayPrototype
  | ObjectMethod jsstring
  | ArrayMethod jsstring

datatype jsval = Data jsdata | Native native

datatype jserror = TypeError

text \<open>
  What the runtime decides: \<open>parseFloat\<close>; \<open>Number.prototype.toString\<close> on a finite
  number that is not an integer of absolute value at most \<open>2 ^ 53\<close>; the names of the
  functions of \<open>Array.prototype\<close>, which grow with the language version; the source text
  that a built-in function prints as; the properties of a built-in function (\<open>length\<close>,
  \<open>name\<close> and what \<open>Function.prototype\<close> gives; none is called \<open>rules\<close> or
  \<open>defaultValue\<close>); and the properties of a boolean, a number or a string. Every function
  that reaches one of them takes the runtime as its first argument, and every theorem
  holds for all runtimes.
\<close>

record jsruntime =
  parseFloat :: "jsstring \<Rightarrow> jsnum"
  fractionToString :: "rat \<Rightarrow> jsstring"
  arrayMethods :: "jsstring list"
  functionToString :: "native \<Rightarrow> jsstring"
  functionProperty :: "native \<Rightarrow> jsstring \<Rightarrow> jsval option"
  primitiveProperty :: "jsdata \<Rightarrow> jsstring \<Rightarrow> jsval"

definition typeof :: "jsval \<Rightarrow> jsstring" where
  "typeof v = (case v of
       Data JUndefined \<Rightarrow> js ''undefined''
     | Data JNull \<Rightarrow> js ''object''
     | Data (JBool _) \<Rightarrow> js ''boolean''
     | Data (JNum _) \<Rightarrow> js ''number''
     | Data (JStr _) \<Rightarrow> js ''string''
     | Data (JArr _) \<Rightarrow> js ''object''
     | Data (JObj _) \<Rightarrow> js ''object''
     | Native ObjectPrototype \<Rightarrow> js ''object''
     | Native ArrayPrototype \<Rightarrow> js ''object''
     | Native (ObjectMethod _) \<Rightarrow> js ''function''
     | Native (ArrayMethod _) \<Rightarrow> js ''function'')"

text \<open>A value used as a condition (\<open>value && ...\<close>).\<close>

definition truthy :: "jsval \<Rightarrow> bool" where
  "truthy v = (case v of
       Data JUndefined \<Rightarrow> False
     | Data JNull \<Rightarrow> False
     | Data (JBool b) \<Rightarrow> b
     | Data (JNum n) \<Rightarrow> (n \<noteq> NaN \<and> n \<noteq> Fin 0)
     | Data (JStr s) \<Rightarrow> (s \<noteq> [])
     | Data (JArr _) \<Rightarrow> True
     | Data (JObj _) \<Rightarrow> True
     | Native _ \<Rightarrow> True)"

text \<open>\<open>Array.isArray(v)\<close>; \<open>Array.prototype\<close> is itself an array, an empty one.\<close>

definition isArray :: "jsval \<Rightarrow> bool" where
  "isArray v = (case v of
       Data (JArr _) \<Rightarrow> True
     | Native ArrayPrototype \<Rightarrow> True
     | _ \<Rightarrow> False)"

text \<open>An object in the sense of the language: a mapping, a list or a built-in.\<close>

definition isObject :: "jsval \<Rightarrow> bool" where
  "isObject v = (case v of
       Data (JArr _) \<Rightarrow> True
     | Data (JObj _) \<Rightarrow> True
     | Native _ \<Rightarrow> True
     | _ \<Rightarrow> False)"

text \<open>\<open>a < b\<close> on numbers: false as soon as one side is \<open>NaN\<close>.\<close>

fun num_less :: "jsnum \<Rightarrow> jsnum \<Rightarrow> bool" where
  "num_less NaN _ = False"
| "num_less _ NaN = False"
| "num_less (Fin a) (Fin b) = (a < b)"
| "num_less _ NegInf = False"
| "num_less NegInf _ = True"
| "num_less PosInf _ = False"
| "num_less _ PosInf = True"

text \<open>\<open>a <= b\<close>, \<open>a > b\<close>, \<open>a >= b\<close>\<close>

definition num_le :: "jsnum \<Rightarrow> jsnum \<Rightarrow> bool" where
  "num_le a b = (a \<noteq> NaN \<and> b \<noteq> NaN \<and> \<not> num_less b a)"

definition num_gt :: "jsnum \<Rightarrow> jsnum \<Rightarrow> bool" where
  "num_gt a b = num_less b a"

definition num_ge :: "jsnum \<Rightarrow> jsnum \<Rightarrow> bool" where
  "num_ge a b = num_le b a"

text \<open>
  \<open>a === b\<close>. On arrays and objects it is identity of reference. Data carry no reference
  here: the two operands of \<open>areEqual\<close> are always one value of the context and one of the
  configuration, and the two are taken to be built apart, as decoding them from JSON
  gives them, so that no array or object of the one is identical to one of the other.
  Two built-ins are identical when they are the same one.
\<close>

fun strict_eq :: "jsval \<Rightarrow> jsval \<Rightarrow> bool" where
  "strict_eq (Data JUndefined) (Data JUndefined) = True"
| "strict_eq (Data JNull) (Data JNull) = True"
| "strict_eq (Data (JBool a)) (Data (JBool b)) = (a = b)"
| "strict_eq (Data (JNum a)) (Data (JNum b)) = (a \<noteq> NaN \<and> a = b)"
| "strict_eq (Data (JStr a)) (Data (JStr b)) = (a = b)"
| "strict_eq (Native a) (Native b) = (a = b)"
| "strict_eq _ _ = False"

text \<open>\<open>a == null\<close>\<close>

definition loose_eq_null :: "jsval \<Rightarrow> bool" where
  "loose_eq_null a = (a = Data JNull \<or> a = Data JUndefined)"

text \<open>
  \<open>a == b\<close> where one side at least is \<open>null\<close> or \<open>undefined\<close>, the only place the
  source evaluates it: \<open>null\<close> and \<open>undefined\<close> equal each other and nothing else.
\<close>

definition loose_eq_nullish :: "jsval \<Rightarrow> jsval \<Rightarrow> bool" where
  "loose_eq_nullish a b = (loose_eq_null a \<and> loose_eq_null b)"

subsection \<open>Properties and the prototype chain\<close>

definition has_key :: "(jsstring \<times> 'a) list \<Rightarrow> jsstring \<Rightarrow> bool" where
  "has_key props k = (case map_of props k of None \<Rightarrow> False | Some _ \<Rightarrow> True)"

definition digit :: "nat \<Rightarrow> 16 word" where
  "digit d = of_nat (48 + d)"

fun decimal :: "nat \<Rightarrow> jsstring" where
  "decimal n = (if n < 10 then [digit n] else decimal (n div 10) @ [digit (n mod 10)])"

declare decimal.simps [simp del]

text \<open>The own properties of an array: the indices, written in decimal, and \<open>length\<close>.\<close>

definition array_props :: "jsdata list \<Rightarrow> (jsstring \<times> jsdata) list" where
  "array_props xs =
     zip (map decimal [0..<length xs]) xs @ [(js ''length'', JNum (Fin (of_nat (length xs))))]"

text \<open>
  The function-valued properties of \<open>Object.prototype\<close>. Its one other property is the
  accessor \<open>__proto__\<close>, which gives the prototype of the object it is read on.
\<close>

definition objectPrototypeKeys :: "jsstring list" where
  "objectPrototypeKeys =
     [js ''constructor'', js ''__defineGetter__'', js ''__defineSetter__'',
      js ''hasOwnProperty'', js ''__lookupGetter__'', js ''__lookupSetter__'',
      js ''isPrototypeOf'', js ''propertyIsEnumerable'', js ''toString'', js ''valueOf'',
      js ''toLocaleString'']"

definition objectPrototypeProperty :: "jsstring \<Rightarrow> jsval option" where
  "objectPrototypeProperty k =
     (if k \<in> set objectPrototypeKeys then Some (Native (ObjectMethod k)) else None)"

text \<open>\<open>Array.prototype\<close> has the length 0 and its functions.\<close>

definition arrayPrototypeProperty :: "jsruntime \<Rightarrow> jsstring \<Rightarrow> jsval option" where
  "arrayPrototypeProperty rt k =
     (if k = js ''length'' then Some (Data (JNum (Fin 0)))
      else if k \<in> set (arrayMethods rt) then Some (Native (ArrayMethod k))
      else None)"

text \<open>
  What \<open>Object.prototype\<close>, the end of every chain, gives to an object whose prototype
  is \<open>p\<close>.
\<close>

definition objectChain :: "jsval \<Rightarrow> jsstring \<Rightarrow> jsval option" where
  "objectChain p k = (if k = js ''__proto__'' then Some p else objectPrototypeProperty k)"

text \<open>
  The property \<open>k\<close> of an object: its own first, then along its prototype chain. \<open>None\<close>
  when neither the object nor a prototype has it.
\<close>

definition lookupProperty :: "jsruntime \<Rightarrow> jsval \<Rightarrow> jsstring \<Rightarrow> jsval option" where
  "lookupProperty rt v k = (case v of
       Data (JObj props) \<Rightarrow>
         (case map_of props k of
            Some x \<Rightarrow> Some (Data x)
          | None \<Rightarrow> objectChain (Native ObjectPrototype) k)
     | Data (JArr xs) \<Rightarrow>
         (case map_of (array_props xs) k of
            Some x \<Rightarrow> Some (Data x)
          | None \<Rightarrow>
              (case arrayPrototypeProperty rt k of
                 Some x \<Rightarrow> Some x
               | None \<Rightarrow> objectChain (Native ArrayPrototype) k))
     | Native ObjectPrototype \<Rightarrow> objectChain (Data JNull) k
     | Native ArrayPrototype \<Rightarrow>
         (case arrayPrototypeProperty rt k of
            Some x \<Rightarrow> Some x
          | None \<Rightarrow> objectChain (Native ObjectPrototype) k)
     | Native n \<Rightarrow> functionProperty rt n k
     | _ \<Rightarrow> None)"

text \<open>
  \<open>k in v\<close> and \<open>v[k]\<close>. The operator \<open>in\<close> throws on anything but an object, a
  property read throws on \<open>null\<close> and \<open>undefined\<close>.
\<close>

definition js_in :: "jsruntime \<Rightarrow> jsstring \<Rightarrow> jsval \<Rightarrow> jserror + bool" where
  "js_in rt k v =
     (if isObject v
      then Inr (case lookupProperty rt v k of None \<Rightarrow> False | Some _ \<Rightarrow> True)
      else Inl TypeError)"

definition js_get :: "jsruntime \<Rightarrow> jsval \<Rightarrow> jsstring \<Rightarrow> jserror + jsval" where
  "js_get rt v k =
     (if isObject v
      then Inr (case lookupProperty rt v k of None \<Rightarrow> Data JUndefined | Some x \<Rightarrow> x)
      else (case v of
              Data JUndefined \<Rightarrow> Inl TypeError
            | Data JNull \<Rightarrow> Inl TypeError
            | Data d \<Rightarrow> Inr (primitiveProperty rt d k)
            | Native _ \<Rightarrow> Inr (Data JUndefined)))"

subsection \<open>String(v)\<close>

text \<open>
  An integer up to \<open>2 ^ 53\<close> in absolute value prints as its decimal digits (all of them
  are doubles, so no shorter digit string reads back as the same number).
\<close>

definition numberToString :: "jsruntime \<Rightarrow> jsnum \<Rightarrow> jsstring" where
  "numberToString rt n = (case n of
       NaN \<Rightarrow> js ''NaN''
     | PosInf \<Rightarrow> js ''Infinity''
     | NegInf \<Rightarrow> js ''-Infinity''
     | Fin q \<Rightarrow>
         if q = of_int \<lfloor>q\<rfloor> \<and> \<bar>q\<bar> \<le> 2 ^ 53
         then (if q < 0 then js ''-'' else []) @ decimal (nat \<bar>\<lfloor>q\<rfloor>\<bar>)
         else fractionToString rt q)"

text \<open>
  \<open>String(o)\<close> on an object calls the \<open>toString\<close> it finds on \<open>o\<close>, then \<open>valueOf\<close>,
  and throws a \<open>TypeError\<close> when neither is a function that returns a primitive. The
  inherited \<open>toString\<close> prints a mapping as \<open>[object Object]\<close>; an own property
  \<open>toString\<close> holds data, which cannot be called, and \<open>valueOf\<close>, own or inherited,
  then gives no primitive either. An array prints as its elements joined by commas,
  \<open>null\<close> and \<open>undefined\<close> as nothing, and throws where an element does.
\<close>

fun dataToString :: "jsruntime \<Rightarrow> jsdata \<Rightarrow> jserror + jsstring"
  and joinElements :: "jsruntime \<Rightarrow> jsdata list \<Rightarrow> jserror + jsstring" where
  "dataToString rt JUndefined = Inr (js ''undefined'')"
| "dataToString rt JNull = Inr (js ''null'')"
| "dataToString rt (JBool b) = Inr (if b then js ''true'' else js ''false'')"
| "dataToString rt (JNum n) = Inr (numberToString rt n)"
| "dataToString rt (JStr s) = Inr s"
| "dataToString rt (JArr xs) = joinElements rt xs"
| "dataToString rt (JObj props) =
     (if has_key props (js ''toString'') then Inl TypeError
      else Inr (js ''[object Object]''))"
| "joinElements rt [] = Inr []"
| "joinElements rt (x # xs) =
     (case (if x = JUndefined \<or> x = JNull then Inr [] else dataToString rt x) of
        Inl e \<Rightarrow> Inl e
      | Inr s \<Rightarrow>
          if xs = [] then Inr s
          else (case joinElements rt xs of
                  Inl e \<Rightarrow> Inl e
                | Inr t \<Rightarrow> Inr (s @ js '','' @ t)))"

definition toString :: "jsruntime \<Rightarrow> jsval \<Rightarrow> jserror + jsstring" where
  "toString rt v = (case v of
       Data d \<Rightarrow> dataToString rt d
     | Native ObjectPrototype \<Rightarrow> Inr (js ''[object Object]'')
     | Native ArrayPrototype \<Rightarrow> Inr []
     | Native n \<Rightarrow> Inr (functionToString rt n))"

subsection \<open>Strings and arrays\<close>

text \<open>\<open>haystack.includes(needle)\<close> on two strings\<close>

fun str_includes :: "jsstring \<Rightarrow> jsstring \<Rightarrow> bool" where
  "str_includes [] needle = (needle = [])"
| "str_includes (h # hs) needle =
     (if take (length needle) (h # hs) = needle then True else str_includes hs needle)"

text \<open>\<open>s.split(sep)\<close> for a separator of one code unit\<close>

fun split :: "16 word \<Rightarrow> jsstring \<Rightarrow> jsstring list" where
  "split sep [] = [[]]"
| "split sep (c # cs) =
     (if c = sep then [] # split sep cs
      else (case split sep cs of [] \<Rightarrow> [[c]] | p # ps \<Rightarrow> (c # p) # ps))"

text \<open>
  \<open>xs.some(p)\<close>: stops at the first element on which \<open>p\<close> is true, and at the first on
  which it throws.
\<close>

fun someLoop :: "('a \<Rightarrow> jserror + bool) \<Rightarrow> 'a list \<Rightarrow> jserror + bool" where
  "someLoop p [] = Inr False"
| "someLoop p (x # xs) =
     (case p x of Inl e \<Rightarrow> Inl e | Inr b \<Rightarrow> if b then Inr True else someLoop p xs)"

text \<open>
  \<open>v.some(p)\<close> throws a \<open>TypeError\<close> on anything but an array, where \<open>some\<close> is no
  function; \<open>v.includes(n)\<close>, the string method on two strings, on anything else.
\<close>

definition js_some :: "jsval \<Rightarrow> (jsval \<Rightarrow> jserror + bool) \<Rightarrow> jserror + bool" where
  "js_some v p = (case v of
       Data (JArr xs) \<Rightarrow> someLoop p (map Data xs)
     | Native ArrayPrototype \<Rightarrow> someLoop p []
     | _ \<Rightarrow> Inl TypeError)"

definition js_includes :: "jsval \<Rightarrow> jsval \<Rightarrow> jserror + bool" where
  "js_includes h n = (case (h, n) of
       (Data (JStr hs), Data (JStr ns)) \<Rightarrow> Inr (str_includes hs ns)
     | _ \<Rightarrow> Inl TypeError)"

section \<open>The data model (types.ts)\<close>

text \<open>
  An optional field is an \<open>option\<close>. The fields the evaluator never reads (\<open>variants\<close>,
  \<open>description\<close>) are left out. Where two interfaces name a field alike, the second one
  carries its record's initial: \<open>cvalue\<close> and \<open>rvalue\<close> are \<open>Condition.value\<close> and
  \<open>Rule.value\<close>.
\<close>

record Context =
  userId :: "jsstring option"
  attributes :: "(jsstring \<times> jsdata) list"

record Condition =
  attribute :: jsstring
  operator :: jsstring
  cvalue :: jsdata

record Rule =
  conditions :: "Condition list option"
  percentage :: "jsnum option"
  rvalue :: "bool option"
  variant :: "jsstring option"

datatype flagDefault = DefBool bool | DefStr jsstring

record Flag =
  key :: jsstring
  defaultValue :: flagDefault
  rules :: "Rule list option"

text \<open>The configuration, a mapping of its own keys to flags.\<close>

type_synonym FlagConfig = "jsstring \<Rightarrow> Flag option"

datatype EvaluationReason =
  Default | RuleMatch | Rollout | RolloutExcluded | FlagNotFound | Error

record metadata =
  ruleIndex :: "nat option"
  bucket :: "int option"
  error :: "jsstring option"

record 'a EvaluationResult =
  "value" :: 'a
  reason :: EvaluationReason
  metadata :: "metadata option"

text \<open>What \<open>evaluateRule\<close> returns: \<open>{ matched, reason, bucket }\<close>.\<close>

record ruleResult =
  matched :: bool
  rreason :: EvaluationReason
  rbucket :: "int option"

section \<open>Condition evaluation (conditions.js)\<close>

text \<open>The \<open>for ... of parts\<close> loop of \<open>getAttributeValue\<close>, \<open>v\<close> its variable \<open>value\<close>.\<close>

fun walk :: "jsruntime \<Rightarrow> jsval \<Rightarrow> jsstring list \<Rightarrow> jserror + jsval" where
  "walk rt v [] = Inr v"
| "walk rt v (part # parts) =
     (if truthy v \<and> typeof v = js ''object'' then
        (case js_in rt part v of
           Inl e \<Rightarrow> Inl e
         | Inr found \<Rightarrow>
             if found
             then (case js_get rt v part of Inl e \<Rightarrow> Inl e | Inr v' \<Rightarrow> walk rt v' parts)
             else Inr (Data JUndefined))
      else Inr (Data JUndefined))"

definition getAttributeValue :: "jsruntime \<Rightarrow> Context \<Rightarrow> jsstring \<Rightarrow> jserror + jsval" where
  "getAttributeValue rt context attr =
     (case js_in rt attr (Data (JObj (attributes context))) of
        Inl e \<Rightarrow> Inl e
      | Inr found \<Rightarrow>
          if found then js_get rt (Data (JObj (attributes context))) attr
          else walk rt (Data (JObj (attributes context))) (split (of_char CHR ''.'') attr))"

text \<open>\<open>String(a) === String(b)\<close> throws where one of the two conversions does.\<close>

definition areEqual :: "jsruntime \<Rightarrow> jsval \<Rightarrow> jsval \<Rightarrow> jserror + bool" where
  "areEqual rt a b =
     (if strict_eq a b then Inr True
      else if loose_eq_null a \<or> loose_eq_null b then Inr (loose_eq_nullish a b)
      else (case toString rt a of
              Inl e \<Rightarrow> Inl e
            | Inr sa \<Rightarrow>
                (case toString rt b of
                   Inl e \<Rightarrow> Inl e
                 | Inr sb \<Rightarrow> Inr (sa = sb))))"

text \<open>\<open>None\<close> is the \<open>null\<close> that \<open>toNumber\<close> returns.\<close>

definition toNumber :: "jsruntime \<Rightarrow> jsval \<Rightarrow> jsnum option" where
  "toNumber rt v =
     (case v of
        Data (JNum n) \<Rightarrow> Some n
      | Data (JStr s) \<Rightarrow> (let num = parseFloat rt s in if num = NaN then None else Some num)
      | _ \<Rightarrow> None)"

definition contains :: "jsruntime \<Rightarrow> jsval \<Rightarrow> jsval \<Rightarrow> jserror + bool" where
  "contains rt haystack needle =
     (if typeof haystack = js ''string'' \<and> typeof needle = js ''string''
      then js_includes haystack needle
      else if isArray haystack then js_some haystack (\<lambda>item. areEqual rt item needle)
      else Inr False)"

text \<open>
  The four numeric cases of the \<open>switch\<close> have one body, up to the comparison:
  both sides through \<open>toNumber\<close>, \<open>false\<close> if one is \<open>null\<close>.
\<close>

definition compareNumbers ::
  "jsruntime \<Rightarrow> (jsnum \<Rightarrow> jsnum \<Rightarrow> bool) \<Rightarrow> jsval \<Rightarrow> jsval \<Rightarrow> bool" where
  "compareNumbers rt cmp actualValue v =
     (case (toNumber rt actualValue, toNumber rt v) of
        (Some numActual, Some numValue) \<Rightarrow> cmp numActual numValue
      | _ \<Rightarrow> False)"

definition evaluateCondition :: "jsruntime \<Rightarrow> Condition \<Rightarrow> Context \<Rightarrow> jserror + bool" where
  "evaluateCondition rt cond context =
     (case getAttributeValue rt context (attribute cond) of
        Inl e \<Rightarrow> Inl e
      | Inr actualValue \<Rightarrow>
          if actualValue = Data JUndefined then
            (if operator cond = js ''neq'' then Inr (cvalue cond \<noteq> JUndefined) else Inr False)
          else if operator cond = js ''eq'' then areEqual rt actualValue (Data (cvalue cond))
          else if operator cond = js ''neq'' then
            (case areEqual rt actualValue (Data (cvalue cond)) of
               Inl e \<Rightarrow> Inl e
             | Inr b \<Rightarrow> Inr (\<not> b))
          else if operator cond = js ''in'' then
            (if \<not> isArray (Data (cvalue cond)) then Inr False
             else js_some (Data (cvalue cond)) (\<lambda>v. areEqual rt actualValue v))
          else if operator cond = js ''gt'' then
            Inr (compareNumbers rt num_gt actualValue (Data (cvalue cond)))
          else if operator cond = js ''gte'' then
            Inr (compareNumbers rt num_ge actualValue (Data (cvalue cond)))
          else if operator cond = js ''lt'' then
            Inr (compareNumbers rt num_less actualValue (Data (cvalue cond)))
          else if operator cond = js ''lte'' then
            Inr (compareNumbers rt num_le actualValue (Data (cvalue cond)))
          else if operator cond = js ''contains'' then
            contains rt actualValue (Data (cvalue cond))
          else Inr False)"

text \<open>\<open>xs.every(f)\<close>: stops at the first \<open>false\<close>, and at the first exception.\<close>

fun every :: "('a \<Rightarrow> jserror + bool) \<Rightarrow> 'a list \<Rightarrow> jserror + bool" where
  "every f [] = Inr True"
| "every f (x # xs) =
     (case f x of Inl e \<Rightarrow> Inl e | Inr b \<Rightarrow> if b then every f xs else Inr False)"

definition evaluateConditions ::
  "jsruntime \<Rightarrow> Condition list option \<Rightarrow> Context \<Rightarrow> jserror + bool" where
  "evaluateConditions rt conds context =
     (case conds of
        None \<Rightarrow> Inr True
      | Some cs \<Rightarrow>
          if length cs = 0 then Inr True
          else every (\<lambda>c. evaluateCondition rt c context) cs)"

section \<open>The evaluator (evaluator.js)\<close>

definition evaluateRule ::
  "jsruntime \<Rightarrow> Rule \<Rightarrow> Context \<Rightarrow> jsstring \<Rightarrow> jserror + ruleResult" where
  "evaluateRule rt rule context flagKey =
     (case evaluateConditions rt
             (Some (case conditions rule of None \<Rightarrow> [] | Some cs \<Rightarrow> cs)) context of
        Inl e \<Rightarrow> Inl e
      | Inr conditionsMatch \<Rightarrow>
          if \<not> conditionsMatch then
            Inr \<lparr>matched = False, rreason = RolloutExcluded, rbucket = None\<rparr>
          else if (case percentage rule of None \<Rightarrow> False | Some p \<Rightarrow> num_less p (Fin 100)) then
            (case userId context of
               None \<Rightarrow> Inr \<lparr>matched = False, rreason = RolloutExcluded, rbucket = None\<rparr>
             | Some uid \<Rightarrow>
                 if uid = [] then
                   Inr \<lparr>matched = False, rreason = RolloutExcluded, rbucket = None\<rparr>
                 else
                   (let bucket = computeRolloutBucket uid flagKey in
                    if (case percentage rule of
                          None \<Rightarrow> False
                        | Some p \<Rightarrow> num_le (Fin (of_int bucket)) p)
                    then Inr \<lparr>matched = True, rreason = Rollout, rbucket = Some bucket\<rparr>
                    else Inr \<lparr>matched = False, rreason = RolloutExcluded,
                               rbucket = Some bucket\<rparr>))
          else Inr \<lparr>matched = True, rreason = RuleMatch, rbucket = None\<rparr>)"

text \<open>\<open>Boolean(flag.defaultValue)\<close> and \<open>String(flag.defaultValue)\<close>\<close>

definition toBoolean :: "flagDefault \<Rightarrow> bool" where
  "toBoolean d = (case d of DefBool b \<Rightarrow> b | DefStr s \<Rightarrow> s \<noteq> [])"

definition defaultToString :: "flagDefault \<Rightarrow> jsstring" where
  "defaultToString d =
     (case d of DefBool b \<Rightarrow> (if b then js ''true'' else js ''false'') | DefStr s \<Rightarrow> s)"

text \<open>The message of a missing flag; the character of code 0x22 is the double quote.\<close>

definition notFoundMessage :: "jsstring \<Rightarrow> jsstring" where
  "notFoundMessage flagKey =
     js ''Flag '' @ [of_char (CHR 0x22)] @ flagKey @ [of_char (CHR 0x22)]
       @ js '' not found in configuration''"

text \<open>
  The \<open>for\<close> loop of \<open>evalBool\<close> from index \<open>i\<close> on: \<open>Some\<close> is the \<open>return\<close> inside
  the loop, \<open>None\<close> is leaving the loop at its end.
\<close>

function boolLoop ::
  "jsruntime \<Rightarrow> Rule list \<Rightarrow> nat \<Rightarrow> Context \<Rightarrow> jsstring
     \<Rightarrow> jserror + bool EvaluationResult option" where
  "boolLoop rt rs i context flagKey =
     (if i < length rs then
        (let rule = rs ! i in
         case evaluateRule rt rule context flagKey of
           Inl e \<Rightarrow> Inl e
         | Inr ruleResult \<Rightarrow>
             if matched ruleResult then
               (let v = (case rvalue rule of Some b \<Rightarrow> b | None \<Rightarrow> True) in
                Inr (Some \<lparr>value = v, reason = rreason ruleResult,
                           metadata = Some \<lparr>ruleIndex = Some i, bucket = rbucket ruleResult,
                                             error = None\<rparr>\<rparr>))
             else boolLoop rt rs (Suc i) context flagKey)
      else Inr None)"
  by pat_completeness auto
termination
  by (relation "measure (\<lambda>(rt, rs, i, context, flagKey). length rs - i)") auto

declare boolLoop.simps [simp del]

text \<open>
  \<open>this.config[flagKey]\<close>: the flag held under the key, or else what the configuration
  object inherits under that name from \<open>Object.prototype\<close>, a built-in.
\<close>

datatype flagLookup = MissingFlag | OwnFlag Flag | InheritedValue jsval

definition configGet :: "FlagConfig \<Rightarrow> jsstring \<Rightarrow> flagLookup" where
  "configGet config k =
     (case config k of
        Some flag \<Rightarrow> OwnFlag flag
      | None \<Rightarrow>
          (case objectChain (Native ObjectPrototype) k of
             Some v \<Rightarrow> InheritedValue v
           | None \<Rightarrow> MissingFlag))"

text \<open>
  An inherited value is a built-in, which is truthy and has no property \<open>rules\<close> or
  \<open>defaultValue\<close>: the function goes to its last statement with \<open>flag.defaultValue\<close>
  undefined, and \<open>Boolean(undefined)\<close> is false.
\<close>

definition evalBool ::
  "jsruntime \<Rightarrow> FlagConfig \<Rightarrow> jsstring \<Rightarrow> Context \<Rightarrow> jserror + bool EvaluationResult" where
  "evalBool rt config flagKey context =
     (case configGet config flagKey of
        MissingFlag \<Rightarrow>
          Inr \<lparr>value = False, reason = FlagNotFound,
               metadata = Some \<lparr>ruleIndex = None, bucket = None,
                                 error = Some (notFoundMessage flagKey)\<rparr>\<rparr>
      | InheritedValue v \<Rightarrow> Inr \<lparr>value = False, reason = Default, metadata = None\<rparr>
      | OwnFlag flag \<Rightarrow>
          (case (case rules flag of
                   None \<Rightarrow> Inr None
                 | Some rs \<Rightarrow>
                     if length rs > 0 then boolLoop rt rs 0 context flagKey else Inr None) of
             Inl e \<Rightarrow> Inl e
           | Inr (Some result) \<Rightarrow> Inr result
           | Inr None \<Rightarrow>
               Inr \<lparr>value = toBoolean (defaultValue flag), reason = Default,
                    metadata = None\<rparr>))"

text \<open>
  The loop of \<open>evalVariant\<close>. \<open>rule.variant || String(flag.defaultValue)\<close> takes the
  right-hand side when the variant is missing and when it is the empty string.
\<close>

function variantLoop ::
  "jsruntime \<Rightarrow> Flag \<Rightarrow> Rule list \<Rightarrow> nat \<Rightarrow> Context \<Rightarrow> jsstring
     \<Rightarrow> jserror + jsstring EvaluationResult option" where
  "variantLoop rt flag rs i context flagKey =
     (if i < length rs then
        (let rule = rs ! i in
         case evaluateRule rt rule context flagKey of
           Inl e \<Rightarrow> Inl e
         | Inr ruleResult \<Rightarrow>
             if matched ruleResult then
               (let v = (case variant rule of
                           None \<Rightarrow> defaultToString (defaultValue flag)
                         | Some s \<Rightarrow>
                             if s \<noteq> [] then s else defaultToString (defaultValue flag)) in
                Inr (Some \<lparr>value = v, reason = rreason ruleResult,
                           metadata = Some \<lparr>ruleIndex = Some i, bucket = rbucket ruleResult,
                                             error = None\<rparr>\<rparr>))
             else variantLoop rt flag rs (Suc i) context flagKey)
      else Inr None)"
  by pat_completeness auto
termination
  by (relation "measure (\<lambda>(rt, flag, rs, i, context, flagKey). length rs - i)") auto

declare variantLoop.simps [simp del]

text \<open>On an inherited value \<open>String(flag.defaultValue)\<close> is \<open>String(undefined)\<close>.\<close>

definition evalVariant ::
  "jsruntime \<Rightarrow> FlagConfig \<Rightarrow> jsstring \<Rightarrow> Context
     \<Rightarrow> jserror + jsstring EvaluationResult" where
  "evalVariant rt config flagKey context =
     (case configGet config flagKey of
        MissingFlag \<Rightarrow>
          Inr \<lparr>value = js ''default'', reason = FlagNotFound,
               metadata = Some \<lparr>ruleIndex = None, bucket = None,
                                 error = Some (notFoundMessage flagKey)\<rparr>\<rparr>
      | InheritedValue v \<Rightarrow>
          Inr \<lparr>value = js ''undefined'', reason = Default, metadata = None\<rparr>
      | OwnFlag flag \<Rightarrow>
          (case (case rules flag of
                   None \<Rightarrow> Inr None
                 | Some rs \<Rightarrow>
                     if length rs > 0 then variantLoop rt flag rs 0 context flagKey
                     else Inr None) of
             Inl e \<Rightarrow> Inl e
           | Inr (Some result) \<Rightarrow> Inr result
           | Inr None \<Rightarrow>
               Inr \<lparr>value = defaultToString (defaultValue flag), reason = Default,
                    metadata = None\<rparr>))"

section \<open>Decimal digits, read back\<close>

text \<open>
  What a string of decimal digits denotes, to state what the decimal representation of a
  number is without repeating how it is produced.
\<close>

definition isDigit :: "16 word \<Rightarrow> bool" where
  "isDigit c = (c \<in> set (js ''0123456789''))"

definition decimalValue :: "jsstring \<Rightarrow> nat" where
  "decimalValue s = foldl (\<lambda>a c. 10 * a + (unat c - 48)) 0 s"

section \<open>Attribute resolution in words: literal key first, then the walk\<close>

text \<open>
  The segments of a dotted path: what stands before the first dot, then the segments of
  what follows it.
\<close>

function specSegments :: "jsstring \<Rightarrow> jsstring list" where
  "specSegments path =
     (case dropWhile (\<lambda>c. c \<noteq> of_char CHR ''.'') path of
        [] \<Rightarrow> [path]
      | dot # rest \<Rightarrow> takeWhile (\<lambda>c. c \<noteq> of_char CHR ''.'') path # specSegments rest)"
  by pat_completeness auto
termination
proof (relation "measure length")
  fix path :: jsstring and dot rest
  assume "dropWhile (\<lambda>c. c \<noteq> of_char CHR ''.'') path = dot # rest"
  then have "length (dot # rest) \<le> length path"
    by (metis length_dropWhile_le)
  then show "(rest, path) \<in> measure length" by simp
qed simp

declare specSegments.simps [simp del]

text \<open>
  The keys of a list: \<open>length\<close>, and its indices written in decimal. The keys of a
  mapping are its own. No other value has any.
\<close>

definition specListKey :: "jsdata list \<Rightarrow> jsstring \<Rightarrow> jsdata option" where
  "specListKey xs k =
     (if k = js ''length'' then Some (JNum (Fin (of_nat (length xs))))
      else (case find (\<lambda>i. decimal i = k) [0..<length xs] of
              None \<Rightarrow> None
            | Some i \<Rightarrow> Some (xs ! i)))"

definition specKey :: "jsdata \<Rightarrow> jsstring \<Rightarrow> jsdata option" where
  "specKey v k = (case v of
       JObj props \<Rightarrow> map_of props k
     | JArr xs \<Rightarrow> specListKey xs k
     | _ \<Rightarrow> None)"

text \<open>
  Walk the segments one at a time; "not found" (\<open>JUndefined\<close>) as soon as the value at
  hand is neither a mapping nor a list, or lacks the segment.
\<close>

fun specWalk :: "jsdata \<Rightarrow> jsstring list \<Rightarrow> jsdata" where
  "specWalk v [] = v"
| "specWalk v (part # parts) =
     (case specKey v part of
        None \<Rightarrow> JUndefined
      | Some v' \<Rightarrow> specWalk v' parts)"

text \<open>The full path as one literal key first; only if that key is absent, the walk.\<close>

definition specResolve :: "(jsstring \<times> jsdata) list \<Rightarrow> jsstring \<Rightarrow> jsdata" where
  "specResolve attrs path =
     (case map_of attrs path of
        Some v \<Rightarrow> v
      | None \<Rightarrow> specWalk (JObj attrs) (specSegments path))"

text \<open>
  The names a mapping or a list inherits from its prototypes. A path that uses none of
  them, as a whole or as a segment, is resolved on own properties alone.
\<close>

definition inheritedName :: "jsruntime \<Rightarrow> jsstring \<Rightarrow> bool" where
  "inheritedName rt k =
     (k = js ''__proto__'' \<or> k \<in> set objectPrototypeKeys \<or> k \<in> set (arrayMethods rt))"

definition plainPath :: "jsruntime \<Rightarrow> jsstring \<Rightarrow> bool" where
  "plainPath rt path =
     (\<not> inheritedName rt path
      \<and> list_all (\<lambda>part. \<not> inheritedName rt part) (specSegments path))"

section \<open>Concrete inputs\<close>

text \<open>
  A runtime for the inputs below. The one string they parse starts with no number, the
  numbers they print are small integers, and they read no property of a function or of
  a primitive.
\<close>

definition sampleRuntime :: jsruntime where
  "sampleRuntime =
     \<lparr>parseFloat = (\<lambda>s. NaN),
      fractionToString = (\<lambda>q. []),
      arrayMethods =
        [js ''constructor'', js ''at'', js ''concat'', js ''copyWithin'', js ''fill'',
         js ''find'', js ''findIndex'', js ''lastIndexOf'', js ''pop'', js ''push'',
         js ''reverse'', js ''shift'', js ''unshift'', js ''slice'', js ''sort'',
         js ''splice'', js ''includes'', js ''indexOf'', js ''join'', js ''keys'',
         js ''entries'', js ''values'', js ''forEach'', js ''filter'', js ''flat'',
         js ''flatMap'', js ''map'', js ''every'', js ''some'', js ''reduce'',
         js ''reduceRight'', js ''toLocaleString'', js ''toString''],
      functionToString = (\<lambda>n. js ''function () { [native code] }''),
      functionProperty = (\<lambda>n k. None),
      primitiveProperty = (\<lambda>d k. Data JUndefined)\<rparr>"

definition sampleContext :: Context where
  "sampleContext =
     \<lparr>userId = Some (js ''u''),
      attributes =
        [(js ''plan'', JStr (js ''premium'')),
         (js ''age'', JStr (js ''25'')),
         (js ''count'', JNum (Fin 25)),
         (js ''score'', JStr (js ''not-a-number'')),
         (js ''tags'', JArr [JStr (js ''beta'')]),
         (js ''user'', JObj [(js ''plan'', JStr (js ''pro''))]),
         (js ''user.plan'', JStr (js ''literal''))]\<rparr>"

text \<open>The same context with an empty user identifier, and with none.\<close>

definition emptyIdContext :: Context where
  "emptyIdContext = sampleContext\<lparr>userId := Some []\<rparr>"

definition anonymousContext :: Context where
  "anonymousContext = sampleContext\<lparr>userId := None\<rparr>"

text \<open>
  Three rules: the first fails its condition on \<open>sampleContext\<close>, the second passes its
  condition and is a 50 percent rollout, the third has no condition and no rollout.
\<close>

definition sampleRules :: "Rule list" where
  "sampleRules =
     [\<lparr>conditions = Some [\<lparr>attribute = js ''plan'', operator = js ''eq'',
                           cvalue = JStr (js ''enterprise'')\<rparr>],
       percentage = None, rvalue = Some False, variant = Some (js ''a'')\<rparr>,
      \<lparr>conditions = Some [\<lparr>attribute = js ''plan'', operator = js ''eq'',
                           cvalue = JStr (js ''premium'')\<rparr>],
       percentage = Some (Fin 50), rvalue = Some True, variant = Some (js ''b'')\<rparr>,
      \<lparr>conditions = None, percentage = None, rvalue = None, variant = None\<rparr>]"

definition sampleFlag :: Flag where
  "sampleFlag =
     \<lparr>key = js ''f'', defaultValue = DefStr (js ''control''), rules = Some sampleRules\<rparr>"

definition sampleConfig :: FlagConfig where
  "sampleConfig = [js ''f'' \<mapsto> sampleFlag]"

text \<open>A flag whose only rule is a rollout of 0 percent, and one whose rule names the
  empty variant.\<close>

definition closedRule :: Rule where
  "closedRule =
     \<lparr>conditions = None, percentage = Some (Fin 0), rvalue = Some True,
      variant = Some (js ''b'')\<rparr>"

definition closedConfig :: FlagConfig where
  "closedConfig =
     [js ''f'' \<mapsto> \<lparr>key = js ''f'', defaultValue = DefStr (js ''control''),
                      rules = Some [closedRule]\<rparr>]"

definition emptyVariantRule :: Rule where
  "emptyVariantRule =
     \<lparr>conditions = None, percentage = None, rvalue = None, variant = Some []\<rparr>"

definition emptyVariantConfig :: FlagConfig where
  "emptyVariantConfig =
     [js ''f'' \<mapsto> \<lparr>key = js ''f'', defaultValue = DefStr (js ''control''),
                      rules = Some [emptyVariantRule]\<rparr>]"

text \<open>
  A context whose attribute \<open>x\<close> is the mapping \<open>{"toString": null}\<close>, and a flag
  with the one rule \<open>x eq "a"\<close>.
\<close>

definition unprintableContext :: Context where
  "unprintableContext =
     \<lparr>userId = None, attributes = [(js ''x'', JObj [(js ''toString'', JNull)])]\<rparr>"

definition xRule :: Rule where
  "xRule =
     \<lparr>conditions = Some [\<lparr>attribute = js ''x'', operator = js ''eq'',
                           cvalue = JStr (js ''a'')\<rparr>],
      percentage = None, rvalue = Some True, variant = Some (js ''b'')\<rparr>"

definition xConfig :: FlagConfig where
  "xConfig =
     [js ''f'' \<mapsto> \<lparr>key = js ''f'', defaultValue = DefBool False, rules = Some [xRule]\<rparr>]"

text \<open>The configuration with no flag at all.\<close>

definition emptyConfig :: FlagConfig where
  "emptyConfig = (\<lambda>k. None)"

text \<open>A context whose nested mapping is shadowed by no literal key.\<close>

definition nestedContext :: Context where
  "nestedContext =
     \<lparr>userId = None,
      attributes = [(js ''user'', JObj [(js ''plan'', JStr (js ''pro'')), (js ''n'', JNull)])]\<rparr>"

section \<open>Properties of the rollout hash\<close>

lemma toInt32_eq: "toInt32 x = signed_take_bit 31 x"
proof -
  define m where "m = x mod 2 ^ 32"
  have m: "0 \<le> m" "m < 2 ^ 32" by (simp_all add: m_def)
  have "(x + 2 ^ 31) mod 2 ^ 32 = (m + 2 ^ 31) mod 2 ^ 32"
    unfolding m_def by (simp add: mod_add_left_eq)
  also have "\<dots> = (if m \<ge> 2 ^ 31 then m - 2 ^ 31 else m + 2 ^ 31)"
  proof (cases "m \<ge> 2 ^ 31")
    case True
    then have "(m + 2 ^ 31) mod 2 ^ 32 = (m + 2 ^ 31 - 2 ^ 32) mod 2 ^ 32"
      by (metis mod_diff_right_eq mod_self diff_zero)
    also have "\<dots> = m + 2 ^ 31 - 2 ^ 32"
      using True m by (intro mod_pos_pos_trivial) simp_all
    finally show ?thesis using True by simp
  next
    case False
    then have "(m + 2 ^ 31) mod 2 ^ 32 = m + 2 ^ 31"
      using m by (intro mod_pos_pos_trivial) simp_all
    then show ?thesis using False by simp
  qed
  finally have "(x + 2 ^ 31) mod 2 ^ 32 - 2 ^ 31 = (if m \<ge> 2 ^ 31 then m - 2 ^ 32 else m)"
    by simp
  then show ?thesis
    by (simp add: toInt32_def Let_def m_def signed_take_bit_eq_take_bit_shift take_bit_eq_mod)
qed

lemma toInt32_mod: "toInt32 x mod 2 ^ 32 = x mod 2 ^ 32"
  by (simp add: toInt32_def Let_def mod_diff_right_eq [symmetric, of _ "2 ^ 32" "2 ^ 32"])

lemma toInt32_congI: "x mod 2 ^ 32 = y mod 2 ^ 32 \<Longrightarrow> toInt32 x = toInt32 y"
  by (simp add: toInt32_def)

lemma js_and_self: "js_and a a = toInt32 a"
  by (simp add: js_and_def)

lemma mod_cong_mult32:
  fixes a b :: int
  shows "a mod n = b mod n \<Longrightarrow> (a * 32) mod n = (b * 32) mod n"
  by (metis mod_mult_left_eq)

lemma mod_cong_sub_add:
  fixes a b :: int
  shows "a mod n = b mod n \<Longrightarrow> (a - h + c) mod n = (b - h + c) mod n"
  by (metis mod_add_left_eq mod_diff_left_eq)

text \<open>
  One turn of the loop: shift, subtract, add and mask amount to \<open>h * 31 + c\<close> cut to
  32 signed bits.
\<close>

lemma hash_step:
  "js_and (js_shl h 5 - h + c) (js_shl h 5 - h + c) = signed_take_bit 31 (h * 31 + c)"
proof -
  have "toInt32 (toInt32 h * 32) mod 2 ^ 32 = (h * 32) mod 2 ^ 32"
    unfolding toInt32_mod by (rule mod_cong_mult32) (rule toInt32_mod)
  then have "(toInt32 (toInt32 h * 32) - h + c) mod 2 ^ 32 = (h * 32 - h + c) mod 2 ^ 32"
    by (rule mod_cong_sub_add)
  also have "h * 32 - h + c = h * 31 + c"
    by simp
  finally have "toInt32 (toInt32 (toInt32 h * 32) - h + c) = toInt32 (h * 31 + c)"
    by (rule toInt32_congI)
  then show ?thesis
    by (simp add: js_and_self js_shl_def toInt32_eq)
qed

lemma hashLoop_foldl:
  "hashLoop h s = foldl (\<lambda>h c. signed_take_bit 31 (h * 31 + uint c)) h s"
  by (induction s arbitrary: h) (simp_all add: Let_def hash_step)

lemma simpleHash_ref: "simpleHash s = \<bar>refHash s\<bar>"
  by (simp add: simpleHash_def refHash_def hashLoop_foldl)

lemma js_rem_nonneg: "0 \<le> a \<Longrightarrow> js_rem a 101 = a mod 101"
  by (cases "a = 0") (simp_all add: js_rem_def)

lemma bucket_eq_ref: "computeRolloutBucket uid flagKey = refBucket uid flagKey"
  by (simp add: computeRolloutBucket_def refBucket_def Let_def simpleHash_ref js_rem_nonneg)

lemma bucket_range:
  "0 \<le> computeRolloutBucket uid flagKey \<and> computeRolloutBucket uid flagKey \<le> 100"
  by (simp add: bucket_eq_ref refBucket_def)

text \<open>
  C1. For every userId and flagKey, \<open>computeRolloutBucket\<close> equals the reference
  algorithm (concatenate userId, ":", flagKey; fold \<open>h = h * 31 + charCode\<close> truncated to
  32 signed bits from 0; absolute value; modulo 101), and so lies in [0, 100] for all
  inputs, the empty strings included. Being a function of the two strings, it is
  deterministic.
\<close>

theorem computeRolloutBucket_reference:
  "computeRolloutBucket uid flagKey = refBucket uid flagKey
   \<and> 0 \<le> computeRolloutBucket uid flagKey
   \<and> computeRolloutBucket uid flagKey \<le> 100
   \<and> 0 \<le> computeRolloutBucket [] []
   \<and> computeRolloutBucket [] [] \<le> 100"
  using bucket_eq_ref [of uid flagKey] bucket_range [of uid flagKey] bucket_range [of "[]" "[]"]
  by simp

section \<open>String literals\<close>

lemma of_char_word16_inj: "(of_char c :: 16 word) = of_char d \<Longrightarrow> c = d"
proof -
  assume "(of_char c :: 16 word) = of_char d"
  then have "unat (of_nat (of_char c) :: 16 word) = unat (of_nat (of_char d) :: 16 word)"
    by (simp add: of_nat_of_char)
  then have "(of_char c :: nat) mod 65536 = of_char d mod 65536"
    by (simp add: unat_of_nat)
  moreover have "(of_char c :: nat) < 256" "(of_char d :: nat) < 256"
    by (metis of_char_mod_256 mod_less_divisor zero_less_numeral)+
  ultimately have "(of_char c :: nat) = of_char d"
    by simp
  then show "c = d" by simp
qed

lemma js_eq_iff [simp]: "js a = js b \<longleftrightarrow> a = b"
proof -
  have "inj (of_char :: char \<Rightarrow> 16 word)"
    by (rule injI) (rule of_char_word16_inj)
  then show ?thesis
    by (simp add: js_def inj_map_eq_map)
qed

lemma js_Nil_iff [simp]: "js s = [] \<longleftrightarrow> s = []"
  by (simp add: js_def)

lemma Nil_js_iff [simp]: "[] = js s \<longleftrightarrow> s = []"
  by (auto simp: js_def)

section \<open>The concrete inputs, evaluated\<close>

lemma hashLoop_Cons:
  "hashLoop h (c # cs) = hashLoop (toInt32 (h * 31 + uint c)) cs"
  by (simp add: Let_def hash_step toInt32_eq)

lemma bucket_u_f: "computeRolloutBucket (js ''u'') (js ''f'') = 5"
  by (simp add: computeRolloutBucket_def simpleHash_def js_def js_rem_def hashLoop_Cons
      toInt32_def del: hashLoop.simps(2))

lemma bucket_empty_f: "computeRolloutBucket [] (js ''f'') = 82"
  by (simp add: computeRolloutBucket_def simpleHash_def js_def js_rem_def hashLoop_Cons
      toInt32_def del: hashLoop.simps(2))

text \<open>An own key of the attribute map is found at once, whatever the runtime.\<close>

lemma getAttributeValue_own:
  "map_of (attributes ctx) attr = Some v \<Longrightarrow> getAttributeValue rt ctx attr = Inr (Data v)"
  by (simp add: getAttributeValue_def js_in_def js_get_def isObject_def lookupProperty_def)

lemma sample_plan:
  "getAttributeValue rt sampleContext (js ''plan'') = Inr (Data (JStr (js ''premium'')))"
  by (rule getAttributeValue_own) (simp add: sampleContext_def)

lemma sample_score:
  "getAttributeValue rt sampleContext (js ''score'') = Inr (Data (JStr (js ''not-a-number'')))"
  by (rule getAttributeValue_own) (simp add: sampleContext_def)

lemma sample_count:
  "getAttributeValue rt sampleContext (js ''count'') = Inr (Data (JNum (Fin 25)))"
  by (rule getAttributeValue_own) (simp add: sampleContext_def)

lemma sample_age:
  "getAttributeValue rt sampleContext (js ''age'') = Inr (Data (JStr (js ''25'')))"
  by (rule getAttributeValue_own) (simp add: sampleContext_def)

lemma sample_missing:
  "getAttributeValue rt sampleContext (js ''missing'') = Inr (Data JUndefined)"
  by (simp add: getAttributeValue_def sampleContext_def js_in_def js_get_def isObject_def
      lookupProperty_def objectChain_def objectPrototypeProperty_def objectPrototypeKeys_def
      js_def truthy_def typeof_def)

section \<open>Conditions on a missing attribute, and equality\<close>

lemma evaluateCondition_undefined:
  assumes "getAttributeValue rt ctx (attribute cond) = Inr (Data JUndefined)"
  shows "evaluateCondition rt cond ctx
           = Inr (operator cond = js ''neq'' \<and> cvalue cond \<noteq> JUndefined)"
  unfolding evaluateCondition_def assms sum.case by simp

lemma evaluateCondition_eq:
  assumes "getAttributeValue rt ctx (attribute cond) = Inr v" "v \<noteq> Data JUndefined"
    "operator cond = js ''eq''"
  shows "evaluateCondition rt cond ctx = areEqual rt v (Data (cvalue cond))"
  unfolding evaluateCondition_def assms(1) sum.case using assms(2,3) by simp

lemma evaluateCondition_neq:
  assumes "getAttributeValue rt ctx (attribute cond) = Inr v" "v \<noteq> Data JUndefined"
    "operator cond = js ''neq''"
  shows "evaluateCondition rt cond ctx
           = (case areEqual rt v (Data (cvalue cond)) of Inl e \<Rightarrow> Inl e | Inr b \<Rightarrow> Inr (\<not> b))"
  unfolding evaluateCondition_def assms(1) sum.case using assms(2,3) by simp

text \<open>
  C5. When the attribute of a condition resolves to "not found" (\<open>undefined\<close>), the
  condition matches if and only if its operator is \<open>neq\<close> and its comparison value is
  defined; under every other operator, known or not, it does not match.
\<close>

theorem missing_attribute_neq:
  "getAttributeValue rt ctx (attribute cond) = Inr (Data JUndefined) \<Longrightarrow>
   evaluateCondition rt cond ctx
     = Inr (operator cond = js ''neq'' \<and> cvalue cond \<noteq> JUndefined)"
  by (rule evaluateCondition_undefined)

theorem missing_attribute_neq_witness:
  "getAttributeValue sampleRuntime sampleContext (js ''missing'') = Inr (Data JUndefined)
   \<and> evaluateCondition sampleRuntime
        \<lparr>attribute = js ''missing'', operator = js ''neq'', cvalue = JStr (js ''test'')\<rparr>
        sampleContext = Inr True
   \<and> evaluateCondition sampleRuntime
        \<lparr>attribute = js ''missing'', operator = js ''neq'', cvalue = JUndefined\<rparr>
        sampleContext = Inr False
   \<and> evaluateCondition sampleRuntime
        \<lparr>attribute = js ''missing'', operator = js ''eq'', cvalue = JStr (js ''test'')\<rparr>
        sampleContext = Inr False"
  using sample_missing [of sampleRuntime]
    missing_attribute_neq [of sampleRuntime sampleContext
      "\<lparr>attribute = js ''missing'', operator = js ''neq'', cvalue = JStr (js ''test'')\<rparr>"]
    missing_attribute_neq [of sampleRuntime sampleContext
      "\<lparr>attribute = js ''missing'', operator = js ''neq'', cvalue = JUndefined\<rparr>"]
    missing_attribute_neq [of sampleRuntime sampleContext
      "\<lparr>attribute = js ''missing'', operator = js ''eq'', cvalue = JStr (js ''test'')\<rparr>"]
  by simp

section \<open>One rule\<close>

lemma evaluateRule_conditions_fail:
  assumes "evaluateConditions rt (Some (case conditions rule of None \<Rightarrow> [] | Some cs \<Rightarrow> cs)) ctx
             = Inr False"
  shows "evaluateRule rt rule ctx flagKey
           = Inr \<lparr>matched = False, rreason = RolloutExcluded, rbucket = None\<rparr>"
  unfolding evaluateRule_def assms sum.case by simp

lemma evaluateRule_no_identity:
  assumes "evaluateConditions rt (Some (case conditions rule of None \<Rightarrow> [] | Some cs \<Rightarrow> cs)) ctx
             = Inr True"
    "percentage rule = Some p" "num_less p (Fin 100)"
    "userId ctx = None \<or> userId ctx = Some []"
  shows "evaluateRule rt rule ctx flagKey
           = Inr \<lparr>matched = False, rreason = RolloutExcluded, rbucket = None\<rparr>"
  unfolding evaluateRule_def assms(1) sum.case using assms(2-4) by auto

lemma evaluateRule_rollout:
  assumes "evaluateConditions rt (Some (case conditions rule of None \<Rightarrow> [] | Some cs \<Rightarrow> cs)) ctx
             = Inr True"
    "percentage rule = Some p" "num_less p (Fin 100)"
    "userId ctx = Some uid" "uid \<noteq> []"
  shows "evaluateRule rt rule ctx flagKey
           = Inr (if num_le (Fin (of_int (computeRolloutBucket uid flagKey))) p
                  then \<lparr>matched = True, rreason = Rollout,
                        rbucket = Some (computeRolloutBucket uid flagKey)\<rparr>
                  else \<lparr>matched = False, rreason = RolloutExcluded,
                        rbucket = Some (computeRolloutBucket uid flagKey)\<rparr>)"
  unfolding evaluateRule_def assms(1) sum.case using assms(2-5) by (simp add: Let_def)

lemma evaluateRule_no_rollout:
  assumes "evaluateConditions rt (Some (case conditions rule of None \<Rightarrow> [] | Some cs \<Rightarrow> cs)) ctx
             = Inr True"
    "percentage rule = None \<or> (percentage rule = Some p \<and> num_le (Fin 100) p)"
  shows "evaluateRule rt rule ctx flagKey
           = Inr \<lparr>matched = True, rreason = RuleMatch, rbucket = None\<rparr>"
  unfolding evaluateRule_def assms(1) sum.case using assms(2) by (auto simp: num_le_def)

text \<open>
  C2, as the code has it. For a rule whose conditions all match: if its percentage is
  defined and below 100, then (a) without a user identifier, or with the empty string as
  one, the rule does not match and no bucket is recorded, and (b) with a non-empty user
  identifier the rule matches if and only if the bucket of (userId, flagKey) is at most
  the percentage, with reason \<open>rollout\<close> and that bucket on a match, and with the bucket
  recorded also when excluded; if the percentage is undefined or at least 100, the rule
  matches with reason \<open>rule_match\<close> and no bucket.
\<close>

theorem evaluateRule_percentage:
  assumes "evaluateConditions rt (Some (case conditions rule of None \<Rightarrow> [] | Some cs \<Rightarrow> cs)) ctx
             = Inr True"
  shows
    "(percentage rule = Some p \<and> num_less p (Fin 100)
        \<and> (userId ctx = None \<or> userId ctx = Some []) \<longrightarrow>
      evaluateRule rt rule ctx flagKey
        = Inr \<lparr>matched = False, rreason = RolloutExcluded, rbucket = None\<rparr>)
     \<and> (percentage rule = Some p \<and> num_less p (Fin 100)
          \<and> userId ctx = Some uid \<and> uid \<noteq> [] \<longrightarrow>
        evaluateRule rt rule ctx flagKey
          = Inr (if num_le (Fin (of_int (computeRolloutBucket uid flagKey))) p
                 then \<lparr>matched = True, rreason = Rollout,
                       rbucket = Some (computeRolloutBucket uid flagKey)\<rparr>
                 else \<lparr>matched = False, rreason = RolloutExcluded,
                       rbucket = Some (computeRolloutBucket uid flagKey)\<rparr>))
     \<and> (percentage rule = None \<or> (percentage rule = Some p \<and> num_le (Fin 100) p) \<longrightarrow>
        evaluateRule rt rule ctx flagKey
          = Inr \<lparr>matched = True, rreason = RuleMatch, rbucket = None\<rparr>)"
  using evaluateRule_no_identity [OF assms, of p flagKey]
    evaluateRule_rollout [OF assms, of p uid flagKey]
    evaluateRule_no_rollout [OF assms, of p flagKey]
  by blast

lemma every_Nil_conditions: "evaluateConditions rt (Some []) ctx = Inr True"
  by (simp add: evaluateConditions_def)

lemma sample_premium_condition:
  "evaluateConditions sampleRuntime
     (Some [\<lparr>attribute = js ''plan'', operator = js ''eq'', cvalue = JStr (js ''premium'')\<rparr>])
     sampleContext = Inr True"
  using evaluateCondition_eq [of sampleRuntime sampleContext
      "\<lparr>attribute = js ''plan'', operator = js ''eq'', cvalue = JStr (js ''premium'')\<rparr>"
      "Data (JStr (js ''premium''))"] sample_plan [of sampleRuntime]
  by (simp add: evaluateConditions_def areEqual_def)

lemma sample_enterprise_condition:
  "evaluateConditions sampleRuntime
     (Some [\<lparr>attribute = js ''plan'', operator = js ''eq'', cvalue = JStr (js ''enterprise'')\<rparr>])
     sampleContext = Inr False"
  using evaluateCondition_eq [of sampleRuntime sampleContext
      "\<lparr>attribute = js ''plan'', operator = js ''eq'', cvalue = JStr (js ''enterprise'')\<rparr>"
      "Data (JStr (js ''premium''))"] sample_plan [of sampleRuntime]
  by (simp add: evaluateConditions_def areEqual_def loose_eq_null_def toString_def)

theorem evaluateRule_percentage_witness:
  "evaluateRule sampleRuntime (sampleRules ! 1) sampleContext (js ''f'')
     = Inr \<lparr>matched = True, rreason = Rollout, rbucket = Some 5\<rparr>
   \<and> evaluateRule sampleRuntime closedRule sampleContext (js ''f'')
     = Inr \<lparr>matched = False, rreason = RolloutExcluded, rbucket = Some 5\<rparr>
   \<and> evaluateRule sampleRuntime closedRule anonymousContext (js ''f'')
     = Inr \<lparr>matched = False, rreason = RolloutExcluded, rbucket = None\<rparr>
   \<and> evaluateRule sampleRuntime (sampleRules ! 2) anonymousContext (js ''f'')
     = Inr \<lparr>matched = True, rreason = RuleMatch, rbucket = None\<rparr>"
proof -
  have c1: "evaluateConditions sampleRuntime
      (Some (case conditions (sampleRules ! 1) of None \<Rightarrow> [] | Some cs \<Rightarrow> cs)) sampleContext
      = Inr True"
    using sample_premium_condition by (simp add: sampleRules_def)
  have c2: "evaluateConditions sampleRuntime
      (Some (case conditions closedRule of None \<Rightarrow> [] | Some cs \<Rightarrow> cs)) ctx = Inr True" for ctx
    by (simp add: closedRule_def every_Nil_conditions)
  have c3: "evaluateConditions sampleRuntime
      (Some (case conditions (sampleRules ! 2) of None \<Rightarrow> [] | Some cs \<Rightarrow> cs)) ctx
      = Inr True" for ctx
    by (simp add: sampleRules_def every_Nil_conditions)
  have 1: "evaluateRule sampleRuntime (sampleRules ! 1) sampleContext (js ''f'')
     = Inr \<lparr>matched = True, rreason = Rollout, rbucket = Some 5\<rparr>"
    using evaluateRule_percentage [OF c1, of "Fin 50" "js ''f''" "js ''u''"]
    by (simp add: sampleRules_def sampleContext_def bucket_u_f num_le_def)
  have 2: "evaluateRule sampleRuntime closedRule sampleContext (js ''f'')
     = Inr \<lparr>matched = False, rreason = RolloutExcluded, rbucket = Some 5\<rparr>"
    using evaluateRule_percentage [OF c2, of "Fin 0" sampleContext "js ''f''" "js ''u''"]
    by (simp add: closedRule_def sampleContext_def bucket_u_f num_le_def)
  have 3: "evaluateRule sampleRuntime closedRule anonymousContext (js ''f'')
     = Inr \<lparr>matched = False, rreason = RolloutExcluded, rbucket = None\<rparr>"
    using evaluateRule_percentage [OF c2, of "Fin 0" anonymousContext "js ''f''" "js ''u''"]
    by (simp add: closedRule_def anonymousContext_def)
  have 4: "evaluateRule sampleRuntime (sampleRules ! 2) anonymousContext (js ''f'')
     = Inr \<lparr>matched = True, rreason = RuleMatch, rbucket = None\<rparr>"
    using evaluateRule_percentage [OF c3, of "Fin 0" anonymousContext "js ''f''" "js ''u''"]
    by (simp add: sampleRules_def)
  show ?thesis
    by (intro conjI 1 2 3 4)
qed

text \<open>
  C2 as stated fails on a user identifier that is present and empty: the conditions
  match, the percentage 90 is below 100 and the bucket of ("", "f") is 82, at most 90, yet
  the rule does not match.
\<close>

theorem evaluateRule_empty_userId_counterexample:
  "userId emptyIdContext = Some []
   \<and> evaluateConditions sampleRuntime (Some []) emptyIdContext = Inr True
   \<and> num_less (Fin 90) (Fin 100)
   \<and> num_le (Fin (of_int (computeRolloutBucket [] (js ''f'')))) (Fin 90)
   \<and> evaluateRule sampleRuntime
        \<lparr>conditions = None, percentage = Some (Fin 90), rvalue = Some True, variant = None\<rparr>
        emptyIdContext (js ''f'')
      = Inr \<lparr>matched = False, rreason = RolloutExcluded, rbucket = None\<rparr>"
  by (simp add: emptyIdContext_def every_Nil_conditions bucket_empty_f num_le_def
      evaluateRule_def)

section \<open>The rule loops\<close>

lemma matched_reason:
  assumes "evaluateRule rt rule ctx flagKey = Inr rr"
  shows "if matched rr then rreason rr = RuleMatch \<or> rreason rr = Rollout
         else rreason rr = RolloutExcluded"
proof (cases "evaluateConditions rt
    (Some (case conditions rule of None \<Rightarrow> [] | Some cs \<Rightarrow> cs)) ctx")
  case (Inl e)
  with assms show ?thesis by (simp add: evaluateRule_def)
next
  case (Inr b)
  from assms show ?thesis
    unfolding evaluateRule_def Inr sum.case
    by (auto simp: Let_def split: if_splits option.splits)
qed

lemma configGet_own: "config flagKey = Some flag \<Longrightarrow> configGet config flagKey = OwnFlag flag"
  by (simp add: configGet_def)

lemma boolLoop_hit:
  assumes "i < length rs" "evaluateRule rt (rs ! i) ctx flagKey = Inr rr" "matched rr"
  shows "boolLoop rt rs i ctx flagKey
           = Inr (Some \<lparr>value = (case rvalue (rs ! i) of Some b \<Rightarrow> b | None \<Rightarrow> True),
                        reason = rreason rr,
                        metadata = Some \<lparr>ruleIndex = Some i, bucket = rbucket rr,
                                          error = None\<rparr>\<rparr>)"
  using assms by (subst boolLoop.simps) (simp add: Let_def)

lemma boolLoop_miss:
  assumes "i < length rs"
    "\<exists>rr. evaluateRule rt (rs ! i) ctx flagKey = Inr rr \<and> \<not> matched rr"
  shows "boolLoop rt rs i ctx flagKey = boolLoop rt rs (Suc i) ctx flagKey"
proof -
  obtain rr where "evaluateRule rt (rs ! i) ctx flagKey = Inr rr" "\<not> matched rr"
    using assms(2) by blast
  with assms(1) show ?thesis
    by (subst boolLoop.simps) (simp add: Let_def)
qed

lemma boolLoop_skip:
  assumes "i \<le> length rs"
    "\<forall>j. i0 \<le> j \<and> j < i \<longrightarrow>
       (\<exists>rr. evaluateRule rt (rs ! j) ctx flagKey = Inr rr \<and> \<not> matched rr)"
    "i0 \<le> i"
  shows "boolLoop rt rs i0 ctx flagKey = boolLoop rt rs i ctx flagKey"
  using assms(3,1,2)
proof (induction i rule: dec_induct)
  case base
  show ?case by simp
next
  case (step n)
  then have "boolLoop rt rs i0 ctx flagKey = boolLoop rt rs n ctx flagKey"
    by simp
  also have "\<dots> = boolLoop rt rs (Suc n) ctx flagKey"
    using step.prems step.hyps by (intro boolLoop_miss) simp_all
  finally show ?case .
qed

lemma boolLoop_end: "boolLoop rt rs (length rs) ctx flagKey = Inr None"
  by (subst boolLoop.simps) simp

lemma boolLoop_reason:
  "boolLoop rt rs i ctx flagKey = Inr (Some r) \<Longrightarrow>
   reason r = RuleMatch \<or> reason r = Rollout"
proof (induction rt rs i ctx flagKey rule: boolLoop.induct)
  case (1 rt rs i ctx flagKey)
  show ?case
  proof (cases "i < length rs")
    case False
    with "1.prems" show ?thesis by (simp add: boolLoop.simps)
  next
    case True
    show ?thesis
    proof (cases "evaluateRule rt (rs ! i) ctx flagKey")
      case (Inl e)
      with True "1.prems" show ?thesis by (simp add: boolLoop.simps Let_def)
    next
      case (Inr rr)
      show ?thesis
      proof (cases "matched rr")
        case m: True
        with boolLoop_hit [OF True Inr] "1.prems" matched_reason [OF Inr] show ?thesis
          by auto
      next
        case False
        then have "boolLoop rt rs i ctx flagKey = boolLoop rt rs (Suc i) ctx flagKey"
          using True Inr by (intro boolLoop_miss) auto
        with "1.IH" [OF True refl Inr False] "1.prems" show ?thesis by simp
      qed
    qed
  qed
qed

lemma variantLoop_hit:
  assumes "i < length rs" "evaluateRule rt (rs ! i) ctx flagKey = Inr rr" "matched rr"
  shows "variantLoop rt flag rs i ctx flagKey
           = Inr (Some \<lparr>value = (case variant (rs ! i) of
                                   None \<Rightarrow> defaultToString (defaultValue flag)
                                 | Some s \<Rightarrow>
                                     if s \<noteq> [] then s
                                     else defaultToString (defaultValue flag)),
                        reason = rreason rr,
                        metadata = Some \<lparr>ruleIndex = Some i, bucket = rbucket rr,
                                          error = None\<rparr>\<rparr>)"
  using assms by (subst variantLoop.simps) (simp add: Let_def)

lemma variantLoop_miss:
  assumes "i < length rs"
    "\<exists>rr. evaluateRule rt (rs ! i) ctx flagKey = Inr rr \<and> \<not> matched rr"
  shows "variantLoop rt flag rs i ctx flagKey = variantLoop rt flag rs (Suc i) ctx flagKey"
proof -
  obtain rr where "evaluateRule rt (rs ! i) ctx flagKey = Inr rr" "\<not> matched rr"
    using assms(2) by blast
  with assms(1) show ?thesis
    by (subst variantLoop.simps) (simp add: Let_def)
qed

lemma variantLoop_skip:
  assumes "i \<le> length rs"
    "\<forall>j. i0 \<le> j \<and> j < i \<longrightarrow>
       (\<exists>rr. evaluateRule rt (rs ! j) ctx flagKey = Inr rr \<and> \<not> matched rr)"
    "i0 \<le> i"
  shows "variantLoop rt flag rs i0 ctx flagKey = variantLoop rt flag rs i ctx flagKey"
  using assms(3,1,2)
proof (induction i rule: dec_induct)
  case base
  show ?case by simp
next
  case (step n)
  then have "variantLoop rt flag rs i0 ctx flagKey = variantLoop rt flag rs n ctx flagKey"
    by simp
  also have "\<dots> = variantLoop rt flag rs (Suc n) ctx flagKey"
    using step.prems step.hyps by (intro variantLoop_miss) simp_all
  finally show ?case .
qed

lemma variantLoop_end: "variantLoop rt flag rs (length rs) ctx flagKey = Inr None"
  by (subst variantLoop.simps) simp

lemma variantLoop_reason:
  "variantLoop rt flag rs i ctx flagKey = Inr (Some r) \<Longrightarrow>
   reason r = RuleMatch \<or> reason r = Rollout"
proof (induction rt flag rs i ctx flagKey rule: variantLoop.induct)
  case (1 rt flag rs i ctx flagKey)
  show ?case
  proof (cases "i < length rs")
    case False
    with "1.prems" show ?thesis by (simp add: variantLoop.simps)
  next
    case True
    show ?thesis
    proof (cases "evaluateRule rt (rs ! i) ctx flagKey")
      case (Inl e)
      with True "1.prems" show ?thesis by (simp add: variantLoop.simps Let_def)
    next
      case (Inr rr)
      show ?thesis
      proof (cases "matched rr")
        case m: True
        with variantLoop_hit [OF True Inr, of flag] "1.prems" matched_reason [OF Inr]
        show ?thesis by auto
      next
        case False
        then have "variantLoop rt flag rs i ctx flagKey
            = variantLoop rt flag rs (Suc i) ctx flagKey"
          using True Inr by (intro variantLoop_miss) auto
        with "1.IH" [OF True refl Inr False] "1.prems" show ?thesis by simp
      qed
    qed
  qed
qed

lemma evalBool_first_match:
  assumes "config flagKey = Some flag" "rules flag = Some rs" "i < length rs"
    "evaluateRule rt (rs ! i) ctx flagKey = Inr rr" "matched rr"
    "\<forall>j<i. \<exists>rj. evaluateRule rt (rs ! j) ctx flagKey = Inr rj \<and> \<not> matched rj"
  shows "evalBool rt config flagKey ctx
           = Inr \<lparr>value = (case rvalue (rs ! i) of Some b \<Rightarrow> b | None \<Rightarrow> True),
                  reason = rreason rr,
                  metadata = Some \<lparr>ruleIndex = Some i, bucket = rbucket rr, error = None\<rparr>\<rparr>"
proof -
  have "boolLoop rt rs 0 ctx flagKey = boolLoop rt rs i ctx flagKey"
    using assms(3,6) by (intro boolLoop_skip) simp_all
  moreover have "rs \<noteq> []"
    using assms(3) by auto
  ultimately show ?thesis
    using configGet_own [where config = config and flagKey = flagKey, OF assms(1)] assms(2) boolLoop_hit [OF assms(3-5)]
    by (simp add: evalBool_def)
qed

lemma evalVariant_first_match:
  assumes "config flagKey = Some flag" "rules flag = Some rs" "i < length rs"
    "evaluateRule rt (rs ! i) ctx flagKey = Inr rr" "matched rr"
    "\<forall>j<i. \<exists>rj. evaluateRule rt (rs ! j) ctx flagKey = Inr rj \<and> \<not> matched rj"
  shows "evalVariant rt config flagKey ctx
           = Inr \<lparr>value = (case variant (rs ! i) of
                             None \<Rightarrow> defaultToString (defaultValue flag)
                           | Some s \<Rightarrow>
                               if s \<noteq> [] then s else defaultToString (defaultValue flag)),
                  reason = rreason rr,
                  metadata = Some \<lparr>ruleIndex = Some i, bucket = rbucket rr, error = None\<rparr>\<rparr>"
proof -
  have "variantLoop rt flag rs 0 ctx flagKey = variantLoop rt flag rs i ctx flagKey"
    using assms(3,6) by (intro variantLoop_skip) simp_all
  moreover have "rs \<noteq> []"
    using assms(3) by auto
  ultimately show ?thesis
    using configGet_own [where config = config and flagKey = flagKey, OF assms(1)] assms(2) variantLoop_hit [OF assms(3-5), of flag]
    by (simp add: evalVariant_def)
qed

lemma evalBool_no_match:
  assumes "config flagKey = Some flag"
    "rules flag = None
       \<or> (rules flag = Some rs
            \<and> (\<forall>j<length rs. \<exists>rj. evaluateRule rt (rs ! j) ctx flagKey = Inr rj
                                   \<and> \<not> matched rj))"
  shows "evalBool rt config flagKey ctx
           = Inr \<lparr>value = toBoolean (defaultValue flag), reason = Default, metadata = None\<rparr>"
proof (cases "rules flag")
  case None
  with configGet_own [where config = config and flagKey = flagKey, OF assms(1)] show ?thesis by (simp add: evalBool_def)
next
  case (Some rs')
  with assms(2) have rs: "rs' = rs"
    "\<forall>j<length rs. \<exists>rj. evaluateRule rt (rs ! j) ctx flagKey = Inr rj \<and> \<not> matched rj"
    by auto
  have "boolLoop rt rs 0 ctx flagKey = boolLoop rt rs (length rs) ctx flagKey"
    using rs(2) by (intro boolLoop_skip) simp_all
  then show ?thesis
    using configGet_own [where config = config and flagKey = flagKey, OF assms(1)] Some rs(1) by (simp add: evalBool_def boolLoop_end)
qed

lemma evalVariant_no_match:
  assumes "config flagKey = Some flag"
    "rules flag = None
       \<or> (rules flag = Some rs
            \<and> (\<forall>j<length rs. \<exists>rj. evaluateRule rt (rs ! j) ctx flagKey = Inr rj
                                   \<and> \<not> matched rj))"
  shows "evalVariant rt config flagKey ctx
           = Inr \<lparr>value = defaultToString (defaultValue flag), reason = Default,
                  metadata = None\<rparr>"
proof (cases "rules flag")
  case None
  with configGet_own [where config = config and flagKey = flagKey, OF assms(1)] show ?thesis by (simp add: evalVariant_def)
next
  case (Some rs')
  with assms(2) have rs: "rs' = rs"
    "\<forall>j<length rs. \<exists>rj. evaluateRule rt (rs ! j) ctx flagKey = Inr rj \<and> \<not> matched rj"
    by auto
  have "variantLoop rt flag rs 0 ctx flagKey = variantLoop rt flag rs (length rs) ctx flagKey"
    using rs(2) by (intro variantLoop_skip) simp_all
  then show ?thesis
    using configGet_own [where config = config and flagKey = flagKey, OF assms(1)] Some rs(1)
    by (simp add: evalVariant_def variantLoop_end)
qed

lemma evalBool_reason:
  assumes "evalBool rt config flagKey ctx = Inr r"
  shows "reason r = Default \<or> reason r = RuleMatch \<or> reason r = Rollout
         \<or> reason r = FlagNotFound"
proof (cases "configGet config flagKey")
  case MissingFlag
  with assms show ?thesis by (auto simp: evalBool_def)
next
  case (InheritedValue v)
  with assms show ?thesis by (auto simp: evalBool_def)
next
  case (OwnFlag flag)
  show ?thesis
  proof (cases "case rules flag of None \<Rightarrow> Inr None
      | Some rs \<Rightarrow> if length rs > 0 then boolLoop rt rs 0 ctx flagKey else Inr None")
    case (Inl e)
    with assms OwnFlag show ?thesis by (simp add: evalBool_def)
  next
    case (Inr res)
    show ?thesis
    proof (cases res)
      case None
      with assms OwnFlag Inr show ?thesis by (auto simp: evalBool_def)
    next
      case (Some r')
      with assms OwnFlag Inr have r: "r' = r" by (simp add: evalBool_def)
      from Inr Some obtain rs where "boolLoop rt rs 0 ctx flagKey = Inr (Some r')"
        by (auto split: option.splits if_splits)
      from boolLoop_reason [OF this] r show ?thesis by auto
    qed
  qed
qed

lemma evalVariant_reason:
  assumes "evalVariant rt config flagKey ctx = Inr r"
  shows "reason r = Default \<or> reason r = RuleMatch \<or> reason r = Rollout
         \<or> reason r = FlagNotFound"
proof (cases "configGet config flagKey")
  case MissingFlag
  with assms show ?thesis by (auto simp: evalVariant_def)
next
  case (InheritedValue v)
  with assms show ?thesis by (auto simp: evalVariant_def)
next
  case (OwnFlag flag)
  show ?thesis
  proof (cases "case rules flag of None \<Rightarrow> Inr None
      | Some rs \<Rightarrow> if length rs > 0 then variantLoop rt flag rs 0 ctx flagKey else Inr None")
    case (Inl e)
    with assms OwnFlag show ?thesis by (simp add: evalVariant_def)
  next
    case (Inr res)
    show ?thesis
    proof (cases res)
      case None
      with assms OwnFlag Inr show ?thesis by (auto simp: evalVariant_def)
    next
      case (Some r')
      with assms OwnFlag Inr have r: "r' = r" by (simp add: evalVariant_def)
      from Inr Some obtain rs where "variantLoop rt flag rs 0 ctx flagKey = Inr (Some r')"
        by (auto split: option.splits if_splits)
      from variantLoop_reason [OF this] r show ?thesis by auto
    qed
  qed
qed

section \<open>The sample flags, evaluated\<close>

lemma sample_rule0:
  "evaluateRule sampleRuntime (sampleRules ! 0) sampleContext (js ''f'')
     = Inr \<lparr>matched = False, rreason = RolloutExcluded, rbucket = None\<rparr>"
  using sample_enterprise_condition
  by (intro evaluateRule_conditions_fail) (simp add: sampleRules_def)

lemma sample_rule1:
  "evaluateRule sampleRuntime (sampleRules ! 1) sampleContext (js ''f'')
     = Inr \<lparr>matched = True, rreason = Rollout, rbucket = Some 5\<rparr>"
proof -
  have "evaluateConditions sampleRuntime
      (Some (case conditions (sampleRules ! 1) of None \<Rightarrow> [] | Some cs \<Rightarrow> cs)) sampleContext
      = Inr True"
    using sample_premium_condition by (simp add: sampleRules_def)
  from evaluateRule_rollout [OF this, of "Fin 50" "js ''u''" "js ''f''"] show ?thesis
    by (simp add: sampleRules_def sampleContext_def bucket_u_f num_le_def)
qed

lemma sample_rule2:
  "evaluateRule sampleRuntime (sampleRules ! 2) ctx (js ''f'')
     = Inr \<lparr>matched = True, rreason = RuleMatch, rbucket = None\<rparr>"
  by (intro evaluateRule_no_rollout [of _ _ _ "Fin 0"])
    (simp_all add: sampleRules_def every_Nil_conditions)

lemma sample_closedRule:
  "evaluateRule sampleRuntime closedRule sampleContext (js ''f'')
     = Inr \<lparr>matched = False, rreason = RolloutExcluded, rbucket = Some 5\<rparr>"
proof -
  have "evaluateConditions sampleRuntime
      (Some (case conditions closedRule of None \<Rightarrow> [] | Some cs \<Rightarrow> cs)) sampleContext
      = Inr True"
    by (simp add: closedRule_def every_Nil_conditions)
  from evaluateRule_rollout [OF this, of "Fin 0" "js ''u''" "js ''f''"] show ?thesis
    by (simp add: closedRule_def sampleContext_def bucket_u_f num_le_def)
qed

lemma sample_emptyVariantRule:
  "evaluateRule sampleRuntime emptyVariantRule ctx (js ''f'')
     = Inr \<lparr>matched = True, rreason = RuleMatch, rbucket = None\<rparr>"
  by (intro evaluateRule_no_rollout [of _ _ _ "Fin 0"])
    (simp_all add: emptyVariantRule_def every_Nil_conditions)

lemma sample_before_1:
  "\<forall>j<1. \<exists>rj. evaluateRule sampleRuntime (sampleRules ! j) sampleContext (js ''f'') = Inr rj
            \<and> \<not> matched rj"
  using sample_rule0 by simp

lemma sample_length: "length sampleRules = 3"
  by (simp add: sampleRules_def)

section \<open>First match wins\<close>

lemma take_Suc_nth:
  assumes "take (Suc i) rs' = take (Suc i) rs" "i < length rs"
  shows "i < length rs' \<and> (\<forall>j\<le>i. rs' ! j = rs ! j)"
proof -
  have "length (take (Suc i) rs') = length (take (Suc i) rs)"
    using assms(1) by simp
  with assms(2) have len: "i < length rs'" by simp
  have "rs' ! j = rs ! j" if "j \<le> i" for j
  proof -
    have "take (Suc i) rs' ! j = take (Suc i) rs ! j"
      using assms(1) by simp
    with that show ?thesis by simp
  qed
  with len show ?thesis by blast
qed

text \<open>
  C3. For a flag with rules, \<open>evalBool\<close> and \<open>evalVariant\<close> go through the rules in
  declaration order and return the result of the first one that matches: if rule \<open>i\<close>
  matches and every rule before it returned without matching, the result is that of rule
  \<open>i\<close> alone, with \<open>ruleIndex = i\<close>, the smallest index of a matching rule; the rules
  before it fell through and leave no trace, and the rules after it are never consulted:
  any list of rules that agrees up to \<open>i\<close> gives the same result.
\<close>

theorem first_match_wins:
  assumes "config flagKey = Some flag" "rules flag = Some rs" "i < length rs"
    "evaluateRule rt (rs ! i) ctx flagKey = Inr rr" "matched rr"
    "\<forall>j<i. \<exists>rj. evaluateRule rt (rs ! j) ctx flagKey = Inr rj \<and> \<not> matched rj"
  shows
    "evalBool rt config flagKey ctx
       = Inr \<lparr>value = (case rvalue (rs ! i) of Some b \<Rightarrow> b | None \<Rightarrow> True),
              reason = rreason rr,
              metadata = Some \<lparr>ruleIndex = Some i, bucket = rbucket rr, error = None\<rparr>\<rparr>
     \<and> evalVariant rt config flagKey ctx
       = Inr \<lparr>value = (case variant (rs ! i) of
                         None \<Rightarrow> defaultToString (defaultValue flag)
                       | Some s \<Rightarrow>
                           if s \<noteq> [] then s else defaultToString (defaultValue flag)),
              reason = rreason rr,
              metadata = Some \<lparr>ruleIndex = Some i, bucket = rbucket rr, error = None\<rparr>\<rparr>
     \<and> (\<forall>k<length rs.
          (\<exists>rk. evaluateRule rt (rs ! k) ctx flagKey = Inr rk \<and> matched rk) \<longrightarrow> i \<le> k)
     \<and> (\<forall>rs'. take (Suc i) rs' = take (Suc i) rs \<longrightarrow>
          evalBool rt (config(flagKey \<mapsto> flag\<lparr>rules := Some rs'\<rparr>)) flagKey ctx
            = evalBool rt config flagKey ctx
          \<and> evalVariant rt (config(flagKey \<mapsto> flag\<lparr>rules := Some rs'\<rparr>)) flagKey ctx
            = evalVariant rt config flagKey ctx)"
proof (intro conjI allI impI)
  show b: "evalBool rt config flagKey ctx
       = Inr \<lparr>value = (case rvalue (rs ! i) of Some b \<Rightarrow> b | None \<Rightarrow> True),
              reason = rreason rr,
              metadata = Some \<lparr>ruleIndex = Some i, bucket = rbucket rr, error = None\<rparr>\<rparr>"
    using assms by (rule evalBool_first_match)
  show v: "evalVariant rt config flagKey ctx
       = Inr \<lparr>value = (case variant (rs ! i) of
                         None \<Rightarrow> defaultToString (defaultValue flag)
                       | Some s \<Rightarrow>
                           if s \<noteq> [] then s else defaultToString (defaultValue flag)),
              reason = rreason rr,
              metadata = Some \<lparr>ruleIndex = Some i, bucket = rbucket rr, error = None\<rparr>\<rparr>"
    using assms by (rule evalVariant_first_match)
  show "i \<le> k"
    if "k < length rs" "\<exists>rk. evaluateRule rt (rs ! k) ctx flagKey = Inr rk \<and> matched rk" for k
  proof (rule ccontr)
    assume "\<not> i \<le> k"
    then have "k < i" by simp
    with assms(6) obtain rj where "evaluateRule rt (rs ! k) ctx flagKey = Inr rj" "\<not> matched rj"
      by blast
    with that(2) show False by auto
  qed
  fix rs'
  assume t: "take (Suc i) rs' = take (Suc i) rs"
  from take_Suc_nth [OF t assms(3)]
  have len: "i < length rs'" and nth: "\<forall>j\<le>i. rs' ! j = rs ! j"
    by simp_all
  let ?config = "config(flagKey \<mapsto> flag\<lparr>rules := Some rs'\<rparr>)"
  have c: "?config flagKey = Some (flag\<lparr>rules := Some rs'\<rparr>)"
    "rules (flag\<lparr>rules := Some rs'\<rparr>) = Some rs'"
    by simp_all
  have e: "evaluateRule rt (rs' ! i) ctx flagKey = Inr rr"
    using nth assms(4) by simp
  have m: "\<forall>j<i. \<exists>rj. evaluateRule rt (rs' ! j) ctx flagKey = Inr rj \<and> \<not> matched rj"
    using nth assms(6) by simp
  show "evalBool rt ?config flagKey ctx = evalBool rt config flagKey ctx"
    using evalBool_first_match [where config = ?config and flagKey = flagKey, OF c len e assms(5) m]
      b nth by simp
  show "evalVariant rt ?config flagKey ctx = evalVariant rt config flagKey ctx"
    using evalVariant_first_match [where config = ?config and flagKey = flagKey, OF c len e assms(5) m]
      v nth by (simp split: option.splits)
qed

theorem first_match_wins_witness:
  "evaluateRule sampleRuntime (sampleRules ! 1) sampleContext (js ''f'')
       = Inr \<lparr>matched = True, rreason = Rollout, rbucket = Some 5\<rparr>
   \<and> evaluateRule sampleRuntime (sampleRules ! 2) sampleContext (js ''f'')
       = Inr \<lparr>matched = True, rreason = RuleMatch, rbucket = None\<rparr>
   \<and> evalBool sampleRuntime sampleConfig (js ''f'') sampleContext
       = Inr \<lparr>value = True, reason = Rollout,
              metadata = Some \<lparr>ruleIndex = Some 1, bucket = Some 5, error = None\<rparr>\<rparr>
   \<and> evalVariant sampleRuntime sampleConfig (js ''f'') sampleContext
       = Inr \<lparr>value = js ''b'', reason = Rollout,
              metadata = Some \<lparr>ruleIndex = Some 1, bucket = Some 5, error = None\<rparr>\<rparr>
   \<and> evalBool sampleRuntime
        (sampleConfig(js ''f'' \<mapsto> sampleFlag\<lparr>rules := Some (take 2 sampleRules)\<rparr>))
        (js ''f'') sampleContext
       = evalBool sampleRuntime sampleConfig (js ''f'') sampleContext"
proof -
  have len: "(1::nat) < length sampleRules"
    by (simp add: sample_length)
  have cfg: "sampleConfig (js ''f'') = Some sampleFlag" "rules sampleFlag = Some sampleRules"
    by (simp_all add: sampleConfig_def sampleFlag_def)
  have m: "matched \<lparr>matched = True, rreason = Rollout, rbucket = Some 5\<rparr>"
    by simp
  note w = first_match_wins [where config = sampleConfig and flagKey = "js ''f''",
      OF cfg len sample_rule1 m sample_before_1]
  note 1 = sample_rule1
  note 2 = sample_rule2 [of sampleContext]
  have 3: "evalBool sampleRuntime sampleConfig (js ''f'') sampleContext
       = Inr \<lparr>value = True, reason = Rollout,
              metadata = Some \<lparr>ruleIndex = Some 1, bucket = Some 5, error = None\<rparr>\<rparr>"
    using w [THEN conjunct1] by (simp add: sampleRules_def)
  have 4: "evalVariant sampleRuntime sampleConfig (js ''f'') sampleContext
       = Inr \<lparr>value = js ''b'', reason = Rollout,
              metadata = Some \<lparr>ruleIndex = Some 1, bucket = Some 5, error = None\<rparr>\<rparr>"
    using w [THEN conjunct2, THEN conjunct1] by (simp add: sampleRules_def)
  have "take (Suc 1) (take 2 sampleRules) = take (Suc 1) sampleRules"
    by simp
  with w [THEN conjunct2, THEN conjunct2, THEN conjunct2]
  have 5: "evalBool sampleRuntime
        (sampleConfig(js ''f'' \<mapsto> sampleFlag\<lparr>rules := Some (take 2 sampleRules)\<rparr>))
        (js ''f'') sampleContext
       = evalBool sampleRuntime sampleConfig (js ''f'') sampleContext"
    by blast
  show ?thesis
    by (intro conjI 1 2 3 4 5)
qed

section \<open>Missing flags, defaults and reasons\<close>

lemma str_includes_prefix: "str_includes (k @ ys) k"
proof (cases "k @ ys")
  case Nil
  then show ?thesis by simp
next
  case (Cons h hs)
  have "take (length k) (k @ ys) = k" by simp
  with Cons have "take (length k) (h # hs) = k" by simp
  with Cons show ?thesis by (simp del: take_Cons')
qed

lemma str_includes_append: "str_includes (xs @ k @ ys) k"
proof (induction xs)
  case Nil
  show ?case by (simp add: str_includes_prefix)
next
  case (Cons x xs)
  then show ?case by simp
qed

lemma notFoundMessage_names_key: "str_includes (notFoundMessage flagKey) flagKey"
proof -
  have "notFoundMessage flagKey
      = (js ''Flag '' @ [of_char (CHR 0x22)]) @ flagKey
          @ ([of_char (CHR 0x22)] @ js '' not found in configuration'')"
    by (simp add: notFoundMessage_def)
  then show ?thesis
    by (simp only: str_includes_append)
qed

text \<open>
  A key that the configuration neither holds nor inherits gives the result the
  specification describes.
\<close>

lemma missing_flag_not_inherited:
  assumes "config flagKey = None" "flagKey \<noteq> js ''__proto__''"
    "flagKey \<notin> set objectPrototypeKeys"
  shows "evalBool rt config flagKey ctx
     = Inr \<lparr>value = False, reason = FlagNotFound,
            metadata = Some \<lparr>ruleIndex = None, bucket = None,
                              error = Some (notFoundMessage flagKey)\<rparr>\<rparr>
   \<and> evalVariant rt config flagKey ctx
     = Inr \<lparr>value = js ''default'', reason = FlagNotFound,
            metadata = Some \<lparr>ruleIndex = None, bucket = None,
                              error = Some (notFoundMessage flagKey)\<rparr>\<rparr>
   \<and> str_includes (notFoundMessage flagKey) flagKey"
  using assms
  by (simp add: evalBool_def evalVariant_def configGet_def objectChain_def
      objectPrototypeProperty_def notFoundMessage_names_key)

text \<open>
  C4 holds of the specification and fails in the code: the key \<open>constructor\<close> is absent
  from the empty configuration, which inherits a function under that name, and
  \<open>evalBool\<close> returns false with reason \<open>default\<close> and no error string, \<open>evalVariant\<close>
  the string "undefined", where the claim gives reason \<open>flag_not_found\<close>.
\<close>

theorem missing_flag_inherited_key:
  "emptyConfig (js ''constructor'') = None
   \<and> evalBool rt emptyConfig (js ''constructor'') ctx
     = Inr \<lparr>value = False, reason = Default, metadata = None\<rparr>
   \<and> evalVariant rt emptyConfig (js ''constructor'') ctx
     = Inr \<lparr>value = js ''undefined'', reason = Default, metadata = None\<rparr>"
  by (simp add: emptyConfig_def evalBool_def evalVariant_def configGet_def objectChain_def
      objectPrototypeProperty_def objectPrototypeKeys_def)

section \<open>An attribute that has no string representation\<close>

lemma unprintable_x:
  "getAttributeValue rt unprintableContext (js ''x'')
     = Inr (Data (JObj [(js ''toString'', JNull)]))"
  by (rule getAttributeValue_own) (simp add: unprintableContext_def)

lemma unprintable_areEqual:
  "areEqual rt (Data (JObj [(js ''toString'', JNull)])) (Data (JStr (js ''a''))) = Inl TypeError"
  by (simp add: areEqual_def loose_eq_null_def toString_def has_key_def)

lemma unprintable_rule:
  "evaluateRule rt xRule unprintableContext flagKey = Inl TypeError"
proof -
  have "evaluateCondition rt
      \<lparr>attribute = js ''x'', operator = js ''eq'', cvalue = JStr (js ''a'')\<rparr>
      unprintableContext = Inl TypeError"
    using evaluateCondition_eq [of rt unprintableContext
        "\<lparr>attribute = js ''x'', operator = js ''eq'', cvalue = JStr (js ''a'')\<rparr>"
        "Data (JObj [(js ''toString'', JNull)])"]
      unprintable_x [of rt] unprintable_areEqual [of rt]
    by simp
  then show ?thesis
    by (simp add: evaluateRule_def xRule_def evaluateConditions_def)
qed

text \<open>
  C9 holds of the specification and fails in the code: with the attribute \<open>x\<close> holding
  the mapping \<open>{"toString": null}\<close> and the rule \<open>x eq "a"\<close>, \<open>String\<close> in
  \<open>areEqual\<close> throws a \<open>TypeError\<close>, which nothing catches: \<open>evalBool\<close> and
  \<open>evalVariant\<close> raise it instead of returning a result.
\<close>

theorem evaluation_raises_on_unprintable:
  "evaluateCondition rt
      \<lparr>attribute = js ''x'', operator = js ''eq'', cvalue = JStr (js ''a'')\<rparr>
      unprintableContext = Inl TypeError
   \<and> evalBool rt xConfig (js ''f'') unprintableContext = Inl TypeError
   \<and> evalVariant rt xConfig (js ''f'') unprintableContext = Inl TypeError"
proof -
  have c: "evaluateCondition rt
      \<lparr>attribute = js ''x'', operator = js ''eq'', cvalue = JStr (js ''a'')\<rparr>
      unprintableContext = Inl TypeError"
    using evaluateCondition_eq [of rt unprintableContext
        "\<lparr>attribute = js ''x'', operator = js ''eq'', cvalue = JStr (js ''a'')\<rparr>"
        "Data (JObj [(js ''toString'', JNull)])"]
      unprintable_x [of rt] unprintable_areEqual [of rt]
    by simp
  have b: "boolLoop rt [xRule] 0 unprintableContext (js ''f'') = Inl TypeError"
    by (subst boolLoop.simps) (simp add: unprintable_rule)
  have v: "variantLoop rt flag [xRule] 0 unprintableContext (js ''f'') = Inl TypeError" for flag
    by (subst variantLoop.simps) (simp add: unprintable_rule)
  show ?thesis
    using b v by (simp add: c evalBool_def evalVariant_def configGet_def xConfig_def)
qed

section \<open>The value of a variant flag\<close>

text \<open>
  C8, as the code has it. For a variant flag: when rule \<open>i\<close> is the first matching rule
  (it matches, and every rule before it returned without matching), \<open>evalVariant\<close>
  returns \<open>rule.variant\<close> if it is present and not the empty string, else the flag's
  default value as a string, with the reason of the matching rule and \<open>ruleIndex = i\<close>;
  when every rule returns without matching (or the flag has no rules) it returns the
  default value as a string with reason \<open>default\<close> and no metadata.
\<close>

theorem evalVariant_value:
  "(config flagKey = Some flag \<and> rules flag = Some rs \<and> i < length rs
      \<and> evaluateRule rt (rs ! i) ctx flagKey = Inr rr \<and> matched rr
      \<and> (\<forall>j<i. \<exists>rj. evaluateRule rt (rs ! j) ctx flagKey = Inr rj \<and> \<not> matched rj) \<longrightarrow>
    evalVariant rt config flagKey ctx
      = Inr \<lparr>value = (case variant (rs ! i) of
                        None \<Rightarrow> defaultToString (defaultValue flag)
                      | Some s \<Rightarrow>
                          if s \<noteq> [] then s else defaultToString (defaultValue flag)),
             reason = rreason rr,
             metadata = Some \<lparr>ruleIndex = Some i, bucket = rbucket rr, error = None\<rparr>\<rparr>)
   \<and> (config flagKey = Some flag
        \<and> (rules flag = None
             \<or> (rules flag = Some rs
                  \<and> (\<forall>j<length rs. \<exists>rj. evaluateRule rt (rs ! j) ctx flagKey = Inr rj
                                         \<and> \<not> matched rj))) \<longrightarrow>
      evalVariant rt config flagKey ctx
        = Inr \<lparr>value = defaultToString (defaultValue flag), reason = Default,
               metadata = None\<rparr>)"
proof (intro conjI impI)
  assume "config flagKey = Some flag \<and> rules flag = Some rs \<and> i < length rs
      \<and> evaluateRule rt (rs ! i) ctx flagKey = Inr rr \<and> matched rr
      \<and> (\<forall>j<i. \<exists>rj. evaluateRule rt (rs ! j) ctx flagKey = Inr rj \<and> \<not> matched rj)"
  then show "evalVariant rt config flagKey ctx
      = Inr \<lparr>value = (case variant (rs ! i) of
                        None \<Rightarrow> defaultToString (defaultValue flag)
                      | Some s \<Rightarrow>
                          if s \<noteq> [] then s else defaultToString (defaultValue flag)),
             reason = rreason rr,
             metadata = Some \<lparr>ruleIndex = Some i, bucket = rbucket rr, error = None\<rparr>\<rparr>"
    using evalVariant_first_match [where config = config and flagKey = flagKey and flag = flag
        and rs = rs and i = i and rr = rr and rt = rt and ctx = ctx]
    by blast
next
  assume "config flagKey = Some flag
        \<and> (rules flag = None
             \<or> (rules flag = Some rs
                  \<and> (\<forall>j<length rs. \<exists>rj. evaluateRule rt (rs ! j) ctx flagKey = Inr rj
                                         \<and> \<not> matched rj)))"
  then show "evalVariant rt config flagKey ctx
        = Inr \<lparr>value = defaultToString (defaultValue flag), reason = Default,
               metadata = None\<rparr>"
    using evalVariant_no_match [where config = config and flagKey = flagKey and flag = flag
        and rs = rs and rt = rt and ctx = ctx]
    by blast
qed

lemma closed_no_match:
  "\<forall>j<length [closedRule].
     \<exists>rj. evaluateRule sampleRuntime ([closedRule] ! j) sampleContext (js ''f'') = Inr rj
          \<and> \<not> matched rj"
  using sample_closedRule by simp

theorem evalVariant_value_witness:
  "evalVariant sampleRuntime sampleConfig (js ''f'') sampleContext
     = Inr \<lparr>value = js ''b'', reason = Rollout,
            metadata = Some \<lparr>ruleIndex = Some 1, bucket = Some 5, error = None\<rparr>\<rparr>
   \<and> evalVariant sampleRuntime closedConfig (js ''f'') sampleContext
     = Inr \<lparr>value = js ''control'', reason = Default, metadata = None\<rparr>"
proof -
  have cfg: "sampleConfig (js ''f'') = Some sampleFlag" "rules sampleFlag = Some sampleRules"
    by (simp_all add: sampleConfig_def sampleFlag_def)
  have 1: "evalVariant sampleRuntime sampleConfig (js ''f'') sampleContext
     = Inr \<lparr>value = js ''b'', reason = Rollout,
            metadata = Some \<lparr>ruleIndex = Some 1, bucket = Some 5, error = None\<rparr>\<rparr>"
    using evalVariant_value [where config = sampleConfig and flagKey = "js ''f''"
        and flag = sampleFlag and rs = sampleRules and i = 1 and rt = sampleRuntime
        and ctx = sampleContext
        and rr = "\<lparr>matched = True, rreason = Rollout, rbucket = Some 5\<rparr>"]
      cfg sample_rule1 sample_before_1
    by (simp add: sample_length) (simp add: sampleRules_def)
  let ?flag = "\<lparr>key = js ''f'', defaultValue = DefStr (js ''control''),
                 rules = Some [closedRule]\<rparr>"
  have 2: "evalVariant sampleRuntime closedConfig (js ''f'') sampleContext
     = Inr \<lparr>value = js ''control'', reason = Default, metadata = None\<rparr>"
    using evalVariant_value [where config = closedConfig and flagKey = "js ''f''"
        and flag = ?flag and rs = "[closedRule]" and i = 0 and rt = sampleRuntime
        and ctx = sampleContext
        and rr = "\<lparr>matched = True, rreason = Rollout, rbucket = Some 5\<rparr>"]
      closed_no_match
    by (simp add: closedConfig_def defaultToString_def)
  show ?thesis
    by (intro conjI 1 2)
qed

text \<open>
  C8 as stated fails on a rule whose variant is present and empty: the rule matches, and
  the value returned is the default "control", not the rule's variant.
\<close>

theorem evalVariant_empty_variant_counterexample:
  "variant emptyVariantRule = Some []
   \<and> evaluateRule sampleRuntime emptyVariantRule sampleContext (js ''f'')
     = Inr \<lparr>matched = True, rreason = RuleMatch, rbucket = None\<rparr>
   \<and> evalVariant sampleRuntime emptyVariantConfig (js ''f'') sampleContext
     = Inr \<lparr>value = js ''control'', reason = RuleMatch,
            metadata = Some \<lparr>ruleIndex = Some 0, bucket = None, error = None\<rparr>\<rparr>"
proof -
  let ?flag = "\<lparr>key = js ''f'', defaultValue = DefStr (js ''control''),
                 rules = Some [emptyVariantRule]\<rparr>"
  have e: "evaluateRule sampleRuntime ([emptyVariantRule] ! 0) sampleContext (js ''f'')
     = Inr \<lparr>matched = True, rreason = RuleMatch, rbucket = None\<rparr>"
    using sample_emptyVariantRule [of sampleContext] by simp
  have "evalVariant sampleRuntime emptyVariantConfig (js ''f'') sampleContext
     = Inr \<lparr>value = (case variant ([emptyVariantRule] ! 0) of
                        None \<Rightarrow> defaultToString (defaultValue ?flag)
                      | Some s \<Rightarrow>
                          if s \<noteq> [] then s else defaultToString (defaultValue ?flag)),
             reason = rreason \<lparr>matched = True, rreason = RuleMatch, rbucket = None\<rparr>,
             metadata = Some \<lparr>ruleIndex = Some 0,
                               bucket = rbucket \<lparr>matched = True, rreason = RuleMatch,
                                                  rbucket = None\<rparr>,
                               error = None\<rparr>\<rparr>"
    by (rule evalVariant_first_match [where flag = ?flag and rs = "[emptyVariantRule]", OF _ _ _ e])
      (simp_all add: emptyVariantConfig_def)
  moreover have "variant emptyVariantRule = Some []"
    by (simp add: emptyVariantRule_def)
  ultimately show ?thesis
    using sample_emptyVariantRule [of sampleContext] by (simp add: defaultToString_def)
qed

section \<open>The reasons a caller can see\<close>

lemma boolLoop_returns:
  "\<forall>j<length rs. \<exists>rj. evaluateRule rt (rs ! j) ctx flagKey = Inr rj \<Longrightarrow>
   \<exists>res. boolLoop rt rs i ctx flagKey = Inr res"
proof (induction rt rs i ctx flagKey rule: boolLoop.induct)
  case (1 rt rs i ctx flagKey)
  show ?case
  proof (cases "i < length rs")
    case False
    then show ?thesis by (simp add: boolLoop.simps)
  next
    case True
    with "1.prems" obtain rr where rr: "evaluateRule rt (rs ! i) ctx flagKey = Inr rr"
      by blast
    show ?thesis
    proof (cases "matched rr")
      case m: True
      with boolLoop_hit [OF True rr] show ?thesis by simp
    next
      case False
      then have "boolLoop rt rs i ctx flagKey = boolLoop rt rs (Suc i) ctx flagKey"
        using True rr by (intro boolLoop_miss) auto
      with "1.IH" [OF True refl rr False "1.prems"] show ?thesis by simp
    qed
  qed
qed

lemma variantLoop_returns:
  "\<forall>j<length rs. \<exists>rj. evaluateRule rt (rs ! j) ctx flagKey = Inr rj \<Longrightarrow>
   \<exists>res. variantLoop rt flag rs i ctx flagKey = Inr res"
proof (induction rt flag rs i ctx flagKey rule: variantLoop.induct)
  case (1 rt flag rs i ctx flagKey)
  show ?case
  proof (cases "i < length rs")
    case False
    then show ?thesis by (simp add: variantLoop.simps)
  next
    case True
    with "1.prems" obtain rr where rr: "evaluateRule rt (rs ! i) ctx flagKey = Inr rr"
      by blast
    show ?thesis
    proof (cases "matched rr")
      case m: True
      with variantLoop_hit [OF True rr] show ?thesis by simp
    next
      case False
      then have "variantLoop rt flag rs i ctx flagKey
          = variantLoop rt flag rs (Suc i) ctx flagKey"
        using True rr by (intro variantLoop_miss) auto
      with "1.IH" [OF True refl rr False "1.prems"] show ?thesis by simp
    qed
  qed
qed

lemma configGet_OwnFlag: "configGet config k = OwnFlag flag \<Longrightarrow> config k = Some flag"
  by (simp add: configGet_def split: option.splits)

lemma evalBool_returns:
  assumes "\<forall>f rl. config flagKey = Some f \<and> rules f = Some rl \<longrightarrow>
      (\<forall>j<length rl. \<exists>rj. evaluateRule rt (rl ! j) ctx flagKey = Inr rj)"
  shows "\<exists>r. evalBool rt config flagKey ctx = Inr r"
proof (cases "configGet config flagKey")
  case MissingFlag
  then show ?thesis by (simp add: evalBool_def)
next
  case (InheritedValue v)
  then show ?thesis by (simp add: evalBool_def)
next
  case (OwnFlag flag)
  then have c: "config flagKey = Some flag"
    by (rule configGet_OwnFlag)
  show ?thesis
  proof (cases "rules flag")
    case None
    with OwnFlag show ?thesis by (simp add: evalBool_def)
  next
    case (Some rs)
    with assms c have "\<forall>j<length rs. \<exists>rj. evaluateRule rt (rs ! j) ctx flagKey = Inr rj"
      by blast
    from boolLoop_returns [OF this, of 0] obtain res
      where "boolLoop rt rs 0 ctx flagKey = Inr res"
      by blast
    with OwnFlag Some show ?thesis
      by (cases res) (simp_all add: evalBool_def)
  qed
qed

lemma evalVariant_returns:
  assumes "\<forall>f rl. config flagKey = Some f \<and> rules f = Some rl \<longrightarrow>
      (\<forall>j<length rl. \<exists>rj. evaluateRule rt (rl ! j) ctx flagKey = Inr rj)"
  shows "\<exists>r. evalVariant rt config flagKey ctx = Inr r"
proof (cases "configGet config flagKey")
  case MissingFlag
  then show ?thesis by (simp add: evalVariant_def)
next
  case (InheritedValue v)
  then show ?thesis by (simp add: evalVariant_def)
next
  case (OwnFlag flag)
  then have c: "config flagKey = Some flag"
    by (rule configGet_OwnFlag)
  show ?thesis
  proof (cases "rules flag")
    case None
    with OwnFlag show ?thesis by (simp add: evalVariant_def)
  next
    case (Some rs)
    with assms c have "\<forall>j<length rs. \<exists>rj. evaluateRule rt (rs ! j) ctx flagKey = Inr rj"
      by blast
    from variantLoop_returns [OF this, of flag 0] obtain res
      where "variantLoop rt flag rs 0 ctx flagKey = Inr res"
      by blast
    with OwnFlag Some show ?thesis
      by (cases res) (simp_all add: evalVariant_def)
  qed
qed

lemma sample_all_return:
  "\<forall>f rl. sampleConfig (js ''f'') = Some f \<and> rules f = Some rl \<longrightarrow>
     (\<forall>j<length rl. \<exists>rj. evaluateRule sampleRuntime (rl ! j) sampleContext (js ''f'') = Inr rj)"
proof (intro allI impI)
  fix f rl j
  assume a: "sampleConfig (js ''f'') = Some f \<and> rules f = Some rl" and j: "j < length rl"
  then have rl: "rl = sampleRules"
    by (auto simp add: sampleConfig_def sampleFlag_def)
  with j have "j = 0 \<or> j = 1 \<or> j = 2"
    by (auto simp add: sample_length)
  with rl sample_rule0 sample_rule1 sample_rule2 [of sampleContext]
  show "\<exists>rj. evaluateRule sampleRuntime (rl ! j) sampleContext (js ''f'') = Inr rj"
    by auto
qed

text \<open>
  C10. The reason in a result that \<open>evalBool\<close> or \<open>evalVariant\<close> returns is one of
  \<open>default\<close>, \<open>rule_match\<close>, \<open>rollout\<close> and \<open>flag_not_found\<close>; \<open>rollout_excluded\<close> and
  \<open>error\<close> never reach the caller. A rule that does not match carries
  \<open>rollout_excluded\<close> only inside \<open>evaluateRule\<close>, and when every rule returns without
  matching the caller gets the flag's default value (as a boolean from \<open>evalBool\<close>, as a
  string from \<open>evalVariant\<close>) with reason \<open>default\<close> and no metadata, so neither a rule
  index nor a bucket, also when a bucket was computed and excluded the user. Both
  functions return a result whenever every rule of the flag returns one.
\<close>

theorem visible_reasons:
  "(evalBool rt config flagKey ctx = Inr r \<longrightarrow>
      (reason r = Default \<or> reason r = RuleMatch \<or> reason r = Rollout
         \<or> reason r = FlagNotFound)
      \<and> reason r \<noteq> RolloutExcluded \<and> reason r \<noteq> Error)
   \<and> (evalVariant rt config flagKey ctx = Inr r' \<longrightarrow>
      (reason r' = Default \<or> reason r' = RuleMatch \<or> reason r' = Rollout
         \<or> reason r' = FlagNotFound)
      \<and> reason r' \<noteq> RolloutExcluded \<and> reason r' \<noteq> Error)
   \<and> (evaluateRule rt rule ctx flagKey = Inr rr \<and> \<not> matched rr \<longrightarrow>
        rreason rr = RolloutExcluded)
   \<and> (config flagKey = Some flag
        \<and> (rules flag = None
             \<or> (rules flag = Some rs
                  \<and> (\<forall>j<length rs. \<exists>rj. evaluateRule rt (rs ! j) ctx flagKey = Inr rj
                                         \<and> \<not> matched rj))) \<longrightarrow>
        evalBool rt config flagKey ctx
          = Inr \<lparr>value = toBoolean (defaultValue flag), reason = Default, metadata = None\<rparr>
        \<and> evalVariant rt config flagKey ctx
          = Inr \<lparr>value = defaultToString (defaultValue flag), reason = Default,
                 metadata = None\<rparr>)
   \<and> ((\<forall>f rl. config flagKey = Some f \<and> rules f = Some rl \<longrightarrow>
          (\<forall>j<length rl. \<exists>rj. evaluateRule rt (rl ! j) ctx flagKey = Inr rj)) \<longrightarrow>
        (\<exists>res. evalBool rt config flagKey ctx = Inr res)
        \<and> (\<exists>res. evalVariant rt config flagKey ctx = Inr res))"
proof (intro conjI impI)
  assume "\<forall>f rl. config flagKey = Some f \<and> rules f = Some rl \<longrightarrow>
          (\<forall>j<length rl. \<exists>rj. evaluateRule rt (rl ! j) ctx flagKey = Inr rj)"
  then show "\<exists>res. evalBool rt config flagKey ctx = Inr res"
    and "\<exists>res. evalVariant rt config flagKey ctx = Inr res"
    by (rule evalBool_returns, rule evalVariant_returns)
next
  assume "evalBool rt config flagKey ctx = Inr r"
  from evalBool_reason [OF this]
  show "reason r = Default \<or> reason r = RuleMatch \<or> reason r = Rollout
         \<or> reason r = FlagNotFound"
    and "reason r \<noteq> RolloutExcluded" and "reason r \<noteq> Error"
    by auto
next
  assume "evalVariant rt config flagKey ctx = Inr r'"
  from evalVariant_reason [OF this]
  show "reason r' = Default \<or> reason r' = RuleMatch \<or> reason r' = Rollout
         \<or> reason r' = FlagNotFound"
    and "reason r' \<noteq> RolloutExcluded" and "reason r' \<noteq> Error"
    by auto
next
  assume "evaluateRule rt rule ctx flagKey = Inr rr \<and> \<not> matched rr"
  then show "rreason rr = RolloutExcluded"
    using matched_reason [of rt rule ctx flagKey rr] by simp
next
  assume a: "config flagKey = Some flag
        \<and> (rules flag = None
             \<or> (rules flag = Some rs
                  \<and> (\<forall>j<length rs. \<exists>rj. evaluateRule rt (rs ! j) ctx flagKey = Inr rj
                                         \<and> \<not> matched rj)))"
  then show "evalBool rt config flagKey ctx
          = Inr \<lparr>value = toBoolean (defaultValue flag), reason = Default, metadata = None\<rparr>"
    using evalBool_no_match [where config = config and flagKey = flagKey and flag = flag
        and rs = rs and rt = rt and ctx = ctx]
    by blast
  from a show "evalVariant rt config flagKey ctx
          = Inr \<lparr>value = defaultToString (defaultValue flag), reason = Default,
                 metadata = None\<rparr>"
    using evalVariant_no_match [where config = config and flagKey = flagKey and flag = flag
        and rs = rs and rt = rt and ctx = ctx]
    by blast
qed

theorem visible_reasons_witness:
  "evaluateRule sampleRuntime closedRule sampleContext (js ''f'')
     = Inr \<lparr>matched = False, rreason = RolloutExcluded, rbucket = Some 5\<rparr>
   \<and> evalBool sampleRuntime closedConfig (js ''f'') sampleContext
     = Inr \<lparr>value = True, reason = Default, metadata = None\<rparr>
   \<and> evalVariant sampleRuntime closedConfig (js ''f'') sampleContext
     = Inr \<lparr>value = js ''control'', reason = Default, metadata = None\<rparr>
   \<and> reason \<lparr>value = True, reason = Default, metadata = None\<rparr> \<noteq> RolloutExcluded
   \<and> (\<exists>res. evalBool sampleRuntime sampleConfig (js ''f'') sampleContext = Inr res)
   \<and> (\<exists>res. evalVariant sampleRuntime sampleConfig (js ''f'') sampleContext = Inr res)"
proof -
  have s: "(\<exists>res. evalBool sampleRuntime sampleConfig (js ''f'') sampleContext = Inr res)
   \<and> (\<exists>res. evalVariant sampleRuntime sampleConfig (js ''f'') sampleContext = Inr res)"
    using visible_reasons [where config = sampleConfig and flagKey = "js ''f''"
        and rt = sampleRuntime and ctx = sampleContext] sample_all_return
    by blast
  let ?flag = "\<lparr>key = js ''f'', defaultValue = DefStr (js ''control''),
                 rules = Some [closedRule]\<rparr>"
  note w = visible_reasons [where config = closedConfig and flagKey = "js ''f''"
        and flag = ?flag and rs = "[closedRule]" and rt = sampleRuntime
        and ctx = sampleContext and rule = closedRule
        and rr = "\<lparr>matched = False, rreason = RolloutExcluded, rbucket = Some 5\<rparr>"
        and r = "\<lparr>value = True, reason = Default, metadata = None\<rparr>"
        and r' = "\<lparr>value = js ''control'', reason = Default, metadata = None\<rparr>"]
  have d: "evalBool sampleRuntime closedConfig (js ''f'') sampleContext
     = Inr \<lparr>value = True, reason = Default, metadata = None\<rparr>
   \<and> evalVariant sampleRuntime closedConfig (js ''f'') sampleContext
     = Inr \<lparr>value = js ''control'', reason = Default, metadata = None\<rparr>"
    using w closed_no_match
    by (simp add: closedConfig_def defaultToString_def toBoolean_def)
  with w have "reason \<lparr>value = True, reason = Default, metadata = None\<rparr> \<noteq> RolloutExcluded"
    by blast
  with d s sample_closedRule show ?thesis
    by simp
qed

section \<open>The three tiers of equality\<close>

lemma digit_cases:
  "d < 10 \<Longrightarrow> d = 0 \<or> d = 1 \<or> d = 2 \<or> d = 3 \<or> d = 4 \<or> d = 5 \<or> d = 6 \<or> d = 7 \<or> d = 8
     \<or> d = (9::nat)"
  by arith

lemma digit_isDigit: "d < 10 \<Longrightarrow> isDigit (digit d)"
  using digit_cases [of d] by (auto simp add: isDigit_def digit_def js_def)

lemma unat_digit: "d < 10 \<Longrightarrow> unat (digit d) = 48 + d"
  using digit_cases [of d] by (auto simp add: digit_def)

lemma decimal_digits: "list_all isDigit (decimal n)"
proof (induction n rule: decimal.induct)
  case (1 n)
  show ?case
  proof (cases "n < 10")
    case True
    then show ?thesis
      by (subst decimal.simps) (simp add: digit_isDigit)
  next
    case False
    then show ?thesis
      using 1 by (subst decimal.simps) (simp add: digit_isDigit)
  qed
qed

lemma decimalValue_snoc: "decimalValue (s @ [c]) = 10 * decimalValue s + (unat c - 48)"
  by (simp add: decimalValue_def)

lemma decimal_value: "decimalValue (decimal n) = n"
proof (induction n rule: decimal.induct)
  case (1 n)
  show ?case
  proof (cases "n < 10")
    case True
    then show ?thesis
      by (subst decimal.simps) (simp add: decimalValue_def unat_digit)
  next
    case False
    then have "decimalValue (decimal (n div 10)) = n div 10"
      using 1 by simp
    with False show ?thesis
      by (subst decimal.simps) (simp add: decimalValue_snoc unat_digit)
  qed
qed

lemma decimal_25: "decimal 25 = js ''25''"
  by (simp add: decimal.simps digit_def js_def)

lemma decimal_7: "decimal 7 = js ''7''"
  by (simp add: decimal.simps digit_def js_def)

lemma decimal_100: "decimal 100 = js ''100''"
  by (simp add: decimal.simps digit_def js_def)

lemma decimal_0: "decimal 0 = js ''0''"
  by (simp add: decimal.simps digit_def js_def)

lemma toString_int:
  "\<bar>n\<bar> \<le> 2 ^ 53 \<Longrightarrow>
   toString rt (Data (JNum (Fin (of_int n))))
     = Inr ((if n < 0 then js ''-'' else []) @ decimal (nat \<bar>n\<bar>))"
proof -
  assume "\<bar>n\<bar> \<le> 2 ^ 53"
  then have "\<bar>(of_int n :: rat)\<bar> \<le> 2 ^ 53"
    by (metis of_int_abs of_int_le_numeral_power_cancel_iff)
  then show ?thesis
    by (simp add: toString_def numberToString_def)
qed


lemma js_append: "js a @ js b = js (a @ b)"
  by (simp add: js_def)

lemma toString_25: "toString rt (Data (JNum (Fin 25))) = Inr (js ''25'')"
  using toString_int [of 25 rt] by (simp add: decimal_25)

lemma toString_minus_7: "toString rt (Data (JNum (Fin (- 7)))) = Inr (js ''-7'')"
  using toString_int [of "- 7" rt] by (simp add: decimal_7 js_append)

lemma toString_100: "toString rt (Data (JNum (Fin 100))) = Inr (js ''100'')"
  using toString_int [of 100 rt] by (simp add: decimal_100)

lemma toString_0: "toString rt (Data (JNum (Fin 0))) = Inr (js ''0'')"
  using toString_int [of 0 rt] by (simp add: decimal_0)

lemma toString_list:
  "toString rt (Data (JArr [JNum (Fin 25), JNull, JStr (js ''a''), JArr [JBool True]]))
     = Inr (js ''25,,a,true'')"
  using toString_25 [of rt] by (simp add: toString_def js_append)

lemma areEqual_tier1: "strict_eq a b \<Longrightarrow> areEqual rt a b = Inr True"
  by (simp add: areEqual_def)

lemma areEqual_tier2:
  assumes "\<not> strict_eq a b"
    and "a = Data JNull \<or> a = Data JUndefined \<or> b = Data JNull \<or> b = Data JUndefined"
  shows "areEqual rt a b
           = Inr ((a = Data JNull \<or> a = Data JUndefined) \<and> (b = Data JNull \<or> b = Data JUndefined))"
  using assms by (auto simp add: areEqual_def loose_eq_null_def loose_eq_nullish_def)

lemma areEqual_tier3:
  assumes "\<not> strict_eq a b" "a \<noteq> Data JNull" "a \<noteq> Data JUndefined" "b \<noteq> Data JNull"
    "b \<noteq> Data JUndefined"
  shows "areEqual rt a b
           = (case toString rt a of
                Inl e \<Rightarrow> Inl e
              | Inr sa \<Rightarrow> (case toString rt b of Inl e \<Rightarrow> Inl e | Inr sb \<Rightarrow> Inr (sa = sb)))"
  using assms by (simp add: areEqual_def loose_eq_null_def)

lemma areEqual_25_string:
  "areEqual rt (Data (JNum (Fin 25))) (Data (JStr s)) = Inr (s = js ''25'')"
  "areEqual rt (Data (JStr s)) (Data (JNum (Fin 25))) = Inr (s = js ''25'')"
  using toString_25 [of rt]
  by (auto simp add: areEqual_tier3 toString_def [of rt "Data (JStr s)"])


lemma areEqual_raises:
  assumes "\<not> strict_eq a b" "a \<noteq> Data JNull" "a \<noteq> Data JUndefined" "b \<noteq> Data JNull"
    "b \<noteq> Data JUndefined"
    and "toString rt a = Inl e \<or> (toString rt a = Inr sa \<and> toString rt b = Inl e)"
  shows "areEqual rt a b = Inl e"
  using assms(6) by (auto simp add: areEqual_tier3 [OF assms(1-5)])

lemma areEqual_strings:
  assumes "\<not> strict_eq a b" "a \<noteq> Data JNull" "a \<noteq> Data JUndefined" "b \<noteq> Data JNull"
    "b \<noteq> Data JUndefined"
    and "toString rt a = Inr sa" "toString rt b = Inr sb"
  shows "areEqual rt a b = Inr (sa = sb)"
  using assms(6,7) by (simp add: areEqual_tier3 [OF assms(1-5)])

lemma areEqual_pins:
  "areEqual rt (Data (JNum NaN)) (Data (JNum NaN)) = Inr True"
  "areEqual rt (Data JNull) (Data JUndefined) = Inr True"
  "areEqual rt (Data JNull) (Data (JStr (js ''null''))) = Inr False"
  "areEqual rt (Data (JNum (Fin 0))) (Data JNull) = Inr False"
  "areEqual rt (Data (JBool True)) (Data (JStr (js ''true''))) = Inr True"
  "areEqual rt (Data (JNum (Fin 0))) (Data (JStr [])) = Inr False"
  "areEqual rt (Data (JArr [])) (Data (JStr [])) = Inr True"
  "areEqual rt (Data (JStr (js ''a''))) (Data (JStr (js ''A''))) = Inr False"
  using toString_0 [of rt]
  by (simp_all add: areEqual_def loose_eq_null_def loose_eq_nullish_def toString_def
      numberToString_def)

lemma toString_shapes:
  "toString rt (Data (JStr s)) = Inr s"
  "toString rt (Data (JBool bo)) = Inr (if bo then js ''true'' else js ''false'')"
  "toString rt (Data (JNum NaN)) = Inr (js ''NaN'')"
  "toString rt (Data (JObj [])) = Inr (js ''[object Object]'')"
  "toString rt (Data (JObj [(js ''plan'', JStr (js ''pro''))])) = Inr (js ''[object Object]'')"
  "toString rt (Data (JObj [(js ''toString'', JNull)])) = Inl TypeError"
  by (simp_all add: toString_def numberToString_def has_key_def)

text \<open>
  C6. The equality of \<open>eq\<close> and \<open>neq\<close> has three tiers: identical values are equal;
  otherwise, if a side is \<open>null\<close> or \<open>undefined\<close>, the two are equal exactly when both
  sides are; otherwise the string representations of the two values decide, and the
  comparison throws where a value has none. The string representation of a string is
  itself, of a boolean \<open>true\<close> or \<open>false\<close>, of an integer its decimal digits after its
  sign, of a list its elements joined by commas, of a mapping \<open>[object Object]\<close>. So
  the number 25 equals a string exactly when the string is \<open>25\<close>, in both directions
  and also as comparison value and attribute value of an \<open>eq\<close> condition; and on a
  defined attribute value \<open>neq\<close> returns the negation of what \<open>eq\<close> returns, and throws
  where \<open>eq\<close> throws.
\<close>

theorem areEqual_three_tiers:
  "((strict_eq a b \<longrightarrow> areEqual rt a b = Inr True)
    \<and> (\<not> strict_eq a b
         \<and> (a = Data JNull \<or> a = Data JUndefined \<or> b = Data JNull \<or> b = Data JUndefined) \<longrightarrow>
        areEqual rt a b
          = Inr ((a = Data JNull \<or> a = Data JUndefined)
                 \<and> (b = Data JNull \<or> b = Data JUndefined)))
    \<and> (\<not> strict_eq a b \<and> a \<noteq> Data JNull \<and> a \<noteq> Data JUndefined \<and> b \<noteq> Data JNull
         \<and> b \<noteq> Data JUndefined \<and> toString rt a = Inr sa \<and> toString rt b = Inr sb \<longrightarrow>
        areEqual rt a b = Inr (sa = sb))
    \<and> (\<not> strict_eq a b \<and> a \<noteq> Data JNull \<and> a \<noteq> Data JUndefined \<and> b \<noteq> Data JNull
         \<and> b \<noteq> Data JUndefined
         \<and> (toString rt a = Inl e \<or> (toString rt a = Inr sa \<and> toString rt b = Inl e)) \<longrightarrow>
        areEqual rt a b = Inl e))
   \<and> (toString rt (Data (JStr s)) = Inr s
      \<and> toString rt (Data (JBool bo)) = Inr (if bo then js ''true'' else js ''false'')
      \<and> (\<bar>n\<bar> \<le> 2 ^ 53 \<longrightarrow>
           toString rt (Data (JNum (Fin (of_int n))))
             = Inr ((if n < 0 then js ''-'' else []) @ decimal (nat \<bar>n\<bar>)))
      \<and> list_all isDigit (decimal m) \<and> decimalValue (decimal m) = m
      \<and> toString rt (Data (JNum (Fin 0))) = Inr (js ''0'')
      \<and> toString rt (Data (JNum (Fin 25))) = Inr (js ''25'')
      \<and> toString rt (Data (JNum (Fin 100))) = Inr (js ''100'')
      \<and> toString rt (Data (JNum (Fin (- 7)))) = Inr (js ''-7'')
      \<and> toString rt (Data (JNum NaN)) = Inr (js ''NaN'')
      \<and> toString rt (Data (JArr [JNum (Fin 25), JNull, JStr (js ''a''), JArr [JBool True]]))
          = Inr (js ''25,,a,true'')
      \<and> toString rt (Data (JObj [])) = Inr (js ''[object Object]'')
      \<and> toString rt (Data (JObj [(js ''plan'', JStr (js ''pro''))]))
          = Inr (js ''[object Object]'')
      \<and> toString rt (Data (JObj [(js ''toString'', JNull)])) = Inl TypeError)
   \<and> (areEqual rt (Data (JNum (Fin 25))) (Data (JStr s)) = Inr (s = js ''25'')
      \<and> areEqual rt (Data (JStr s)) (Data (JNum (Fin 25))) = Inr (s = js ''25'')
      \<and> areEqual rt (Data (JNum NaN)) (Data (JNum NaN)) = Inr True
      \<and> areEqual rt (Data JNull) (Data JUndefined) = Inr True
      \<and> areEqual rt (Data JNull) (Data (JStr (js ''null''))) = Inr False
      \<and> areEqual rt (Data (JNum (Fin 0))) (Data JNull) = Inr False
      \<and> areEqual rt (Data (JBool True)) (Data (JStr (js ''true''))) = Inr True
      \<and> areEqual rt (Data (JNum (Fin 0))) (Data (JStr [])) = Inr False
      \<and> areEqual rt (Data (JArr [])) (Data (JStr [])) = Inr True
      \<and> areEqual rt (Data (JStr (js ''a''))) (Data (JStr (js ''A''))) = Inr False)
   \<and> (getAttributeValue rt ctx attr = Inr v \<and> v \<noteq> Data JUndefined \<longrightarrow>
        evaluateCondition rt \<lparr>attribute = attr, operator = js ''eq'', cvalue = c\<rparr> ctx
          = areEqual rt v (Data c)
        \<and> evaluateCondition rt \<lparr>attribute = attr, operator = js ''neq'', cvalue = c\<rparr> ctx
          = (case areEqual rt v (Data c) of Inl e \<Rightarrow> Inl e | Inr b \<Rightarrow> Inr (\<not> b)))"
proof (intro conjI impI)
  show "\<bar>n\<bar> \<le> 2 ^ 53 \<Longrightarrow>
    toString rt (Data (JNum (Fin (of_int n))))
      = Inr ((if n < 0 then js ''-'' else []) @ decimal (nat \<bar>n\<bar>))"
    by (rule toString_int)
  show "list_all isDigit (decimal m)"
    by (rule decimal_digits)
  show "decimalValue (decimal m) = m"
    by (rule decimal_value)
  show "toString rt (Data (JArr [JNum (Fin 25), JNull, JStr (js ''a''), JArr [JBool True]]))
          = Inr (js ''25,,a,true'')"
    by (rule toString_list)
next
  assume "strict_eq a b"
  then show "areEqual rt a b = Inr True"
    by (rule areEqual_tier1)
next
  assume "\<not> strict_eq a b
         \<and> (a = Data JNull \<or> a = Data JUndefined \<or> b = Data JNull \<or> b = Data JUndefined)"
  then show "areEqual rt a b
          = Inr ((a = Data JNull \<or> a = Data JUndefined)
                 \<and> (b = Data JNull \<or> b = Data JUndefined))"
    using areEqual_tier2 [of a b rt] by blast
next
  assume "\<not> strict_eq a b \<and> a \<noteq> Data JNull \<and> a \<noteq> Data JUndefined \<and> b \<noteq> Data JNull
         \<and> b \<noteq> Data JUndefined \<and> toString rt a = Inr sa \<and> toString rt b = Inr sb"
  then show "areEqual rt a b = Inr (sa = sb)"
    using areEqual_strings [of a b rt sa sb] by blast
next
  assume "\<not> strict_eq a b \<and> a \<noteq> Data JNull \<and> a \<noteq> Data JUndefined \<and> b \<noteq> Data JNull
         \<and> b \<noteq> Data JUndefined
         \<and> (toString rt a = Inl e \<or> (toString rt a = Inr sa \<and> toString rt b = Inl e))"
  then show "areEqual rt a b = Inl e"
    using areEqual_raises [of a b rt e sa] by blast
next
  assume g: "getAttributeValue rt ctx attr = Inr v \<and> v \<noteq> Data JUndefined"
  then show "evaluateCondition rt \<lparr>attribute = attr, operator = js ''eq'', cvalue = c\<rparr> ctx
          = areEqual rt v (Data c)"
    using evaluateCondition_eq
      [of rt ctx "\<lparr>attribute = attr, operator = js ''eq'', cvalue = c\<rparr>" v]
    by simp
  from g show "evaluateCondition rt \<lparr>attribute = attr, operator = js ''neq'', cvalue = c\<rparr> ctx
          = (case areEqual rt v (Data c) of Inl e \<Rightarrow> Inl e | Inr b \<Rightarrow> Inr (\<not> b))"
    using evaluateCondition_neq
      [of rt ctx "\<lparr>attribute = attr, operator = js ''neq'', cvalue = c\<rparr>" v]
    by simp
qed (simp_all only: toString_shapes areEqual_pins areEqual_25_string toString_0 toString_25
    toString_100 toString_minus_7)


theorem areEqual_three_tiers_witness:
  "areEqual sampleRuntime (Data (JStr (js ''x''))) (Data (JStr (js ''x''))) = Inr True
   \<and> areEqual sampleRuntime (Data (JStr (js ''null''))) (Data JNull) = Inr False
   \<and> areEqual sampleRuntime (Data (JNum (Fin 25))) (Data (JStr (js ''26''))) = Inr False
   \<and> areEqual sampleRuntime (Data (JObj [(js ''toString'', JNull)])) (Data (JStr (js ''a'')))
       = Inl TypeError
   \<and> toString sampleRuntime (Data (JNum (Fin (- 7)))) = Inr (js ''-'' @ decimal 7)
   \<and> evaluateCondition sampleRuntime
        \<lparr>attribute = js ''count'', operator = js ''eq'', cvalue = JStr (js ''25'')\<rparr>
        sampleContext = Inr True
   \<and> evaluateCondition sampleRuntime
        \<lparr>attribute = js ''count'', operator = js ''neq'', cvalue = JStr (js ''25'')\<rparr>
        sampleContext = Inr False
   \<and> evaluateCondition sampleRuntime
        \<lparr>attribute = js ''count'', operator = js ''eq'', cvalue = JStr (js ''26'')\<rparr>
        sampleContext = Inr False
   \<and> evaluateCondition sampleRuntime
        \<lparr>attribute = js ''count'', operator = js ''neq'', cvalue = JStr (js ''26'')\<rparr>
        sampleContext = Inr True"
proof -
  have 1: "areEqual sampleRuntime (Data (JStr (js ''x''))) (Data (JStr (js ''x''))) = Inr True"
    using areEqual_three_tiers [where rt = sampleRuntime and a = "Data (JStr (js ''x''))"
        and b = "Data (JStr (js ''x''))"]
    by simp
  have 2: "areEqual sampleRuntime (Data (JStr (js ''null''))) (Data JNull) = Inr False"
    using areEqual_three_tiers [where rt = sampleRuntime and a = "Data (JStr (js ''null''))"
        and b = "Data JNull"]
    by simp
  have 3: "areEqual sampleRuntime (Data (JNum (Fin 25))) (Data (JStr (js ''26''))) = Inr False"
    using areEqual_three_tiers [where rt = sampleRuntime and a = "Data (JNum (Fin 25))"
        and b = "Data (JStr (js ''26''))" and sa = "js ''25''" and sb = "js ''26''"
        and s = "js ''26''"]
    by simp
  have 4: "areEqual sampleRuntime (Data (JObj [(js ''toString'', JNull)])) (Data (JStr (js ''a'')))
       = Inl TypeError"
    using areEqual_three_tiers [where rt = sampleRuntime
        and a = "Data (JObj [(js ''toString'', JNull)])" and b = "Data (JStr (js ''a''))"
        and e = TypeError]
    by simp
  have 5: "toString sampleRuntime (Data (JNum (Fin (- 7)))) = Inr (js ''-'' @ decimal 7)"
    using areEqual_three_tiers [where rt = sampleRuntime and n = "- 7"]
    by simp
  have 6: "evaluateCondition sampleRuntime
        \<lparr>attribute = js ''count'', operator = js ''eq'', cvalue = JStr (js ''25'')\<rparr>
        sampleContext = Inr True
     \<and> evaluateCondition sampleRuntime
        \<lparr>attribute = js ''count'', operator = js ''neq'', cvalue = JStr (js ''25'')\<rparr>
        sampleContext = Inr False"
    using areEqual_three_tiers [where rt = sampleRuntime and ctx = sampleContext
        and attr = "js ''count''" and v = "Data (JNum (Fin 25))" and c = "JStr (js ''25'')"
        and s = "js ''25''"]
      sample_count [of sampleRuntime]
    by simp
  have 7: "evaluateCondition sampleRuntime
        \<lparr>attribute = js ''count'', operator = js ''eq'', cvalue = JStr (js ''26'')\<rparr>
        sampleContext = Inr False
     \<and> evaluateCondition sampleRuntime
        \<lparr>attribute = js ''count'', operator = js ''neq'', cvalue = JStr (js ''26'')\<rparr>
        sampleContext = Inr True"
    using areEqual_three_tiers [where rt = sampleRuntime and ctx = sampleContext
        and attr = "js ''count''" and v = "Data (JNum (Fin 25))" and c = "JStr (js ''26'')"
        and s = "js ''26''"]
      sample_count [of sampleRuntime]
    by simp
  from 1 2 3 4 5 6 7 show ?thesis
    by blast
qed

section \<open>Attribute resolution\<close>

lemma split_unfold:
  "split sep s
     = (case dropWhile (\<lambda>c. c \<noteq> sep) s of
          [] \<Rightarrow> [s]
        | dot # rest \<Rightarrow> takeWhile (\<lambda>c. c \<noteq> sep) s # split sep rest)"
proof (induction s)
  case Nil
  show ?case by simp
next
  case (Cons c cs)
  show ?case
  proof (cases "c = sep")
    case True
    then show ?thesis by simp
  next
    case False
    show ?thesis
    proof (cases "dropWhile (\<lambda>c. c \<noteq> sep) cs")
      case Nil
      with Cons have "split sep cs = [cs]"
        by (simp only: list.case)
      with False Nil show ?thesis
        by (simp del: dropWhile_eq_Nil_conv)
    next
      case (Cons dot rest)
      with Cons.IH have "split sep cs = takeWhile (\<lambda>c. c \<noteq> sep) cs # split sep rest"
        by (simp only: list.case)
      with False Cons show ?thesis
        by simp
    qed
  qed
qed

lemma split_specSegments: "split (of_char CHR ''.'') path = specSegments path"
proof (induction path rule: specSegments.induct)
  case (1 path)
  show ?case
  proof (cases "dropWhile (\<lambda>c. c \<noteq> of_char CHR ''.'') path")
    case Nil
    then show ?thesis
      by (subst split_unfold, subst specSegments.simps) (simp only: list.case)
  next
    case (Cons dot rest)
    with 1 [OF Cons] show ?thesis
      by (subst split_unfold, subst specSegments.simps) (simp only: list.case)
  qed
qed

lemma decimal_not_length: "decimal n \<noteq> js ''length''"
proof
  assume "decimal n = js ''length''"
  with decimal_digits [of n] have "list_all isDigit (js ''length'')"
    by simp
  then show False
    by (simp add: isDigit_def js_def)
qed

lemma index_lookup:
  "map_of (zip (map decimal [m..<m + length xs]) xs) k
     = (case find (\<lambda>i. decimal i = k) [m..<m + length xs] of
          None \<Rightarrow> None
        | Some i \<Rightarrow> Some (xs ! (i - m)))"
proof (induction xs arbitrary: m)
  case Nil
  show ?case by simp
next
  case (Cons x xs)
  have "[m..<m + Suc (length xs)] = m # [Suc m..<m + Suc (length xs)]"
    by (rule upt_conv_Cons) simp
  then have u: "[m..<m + length (x # xs)] = m # [Suc m..<Suc m + length xs]"
    by simp
  show ?case
  proof (cases "decimal m = k")
    case True
    then show ?thesis
      unfolding u by simp
  next
    case False
    show ?thesis
    proof (cases "find (\<lambda>i. decimal i = k) [Suc m..<Suc m + length xs]")
      case None
      with False Cons [of "Suc m"] show ?thesis
        unfolding u by auto
    next
      case (Some i)
      then obtain j where "j < length [Suc m..<Suc m + length xs]"
        and "[Suc m..<Suc m + length xs] ! j = i"
        unfolding find_Some_iff by blast
      then have "i \<in> set [Suc m..<Suc m + length xs]"
        using nth_mem by metis
      then have "Suc m \<le> i"
        by (simp only: set_upt atLeastLessThan_iff)
      then have "(x # xs) ! (i - m) = xs ! (i - Suc m)"
        by (simp add: Suc_diff_le)
      with False Some Cons [of "Suc m"] show ?thesis
        unfolding u by auto
    qed
  qed
qed

lemma array_props_specListKey: "map_of (array_props xs) k = specListKey xs k"
proof (cases "k = js ''length''")
  case True
  have "find (\<lambda>i. decimal i = js ''length'') [0..<0 + length xs] = None"
    by (simp add: find_None_iff decimal_not_length)
  with index_lookup [of 0 xs "js ''length''"]
  have z: "map_of (zip (map decimal [0..<length xs]) xs) (js ''length'') = None"
    by (simp only: option.case add_0)
  show ?thesis
    unfolding True array_props_def specListKey_def map_of_append map_add_def z
    by simp
next
  case False
  have z: "map_of (zip (map decimal [0..<length xs]) xs) k
     = (case find (\<lambda>i. decimal i = k) [0..<length xs] of
          None \<Rightarrow> None
        | Some i \<Rightarrow> Some (xs ! i))"
    using index_lookup [of 0 xs k] by (simp only: add_0 diff_zero)
  show ?thesis
    unfolding array_props_def specListKey_def map_of_append map_add_def z
    using False by (simp split: option.splits)
qed

lemma lookupProperty_plain:
  assumes "\<not> inheritedName rt k"
  shows "lookupProperty rt (Data (JObj props)) k = map_option Data (map_of props k)"
    and "lookupProperty rt (Data (JArr xs)) k = map_option Data (specListKey xs k)"
proof -
  from assms have k: "k \<noteq> js ''__proto__''" "k \<notin> set objectPrototypeKeys"
    "k \<notin> set (arrayMethods rt)"
    by (simp_all add: inheritedName_def)
  then have c: "objectChain p k = None" for p
    by (simp add: objectChain_def objectPrototypeProperty_def)
  show "lookupProperty rt (Data (JObj props)) k = map_option Data (map_of props k)"
    by (simp add: lookupProperty_def c split: option.splits)
  have "specListKey xs k = None \<Longrightarrow> k \<noteq> js ''length''"
    by (auto simp add: specListKey_def)
  then show "lookupProperty rt (Data (JArr xs)) k = map_option Data (specListKey xs k)"
    using k(3)
    by (simp add: lookupProperty_def c array_props_specListKey arrayPrototypeProperty_def
        split: option.splits)
qed

lemma walk_specWalk:
  "list_all (\<lambda>part. \<not> inheritedName rt part) parts \<Longrightarrow>
   walk rt (Data d) parts = Inr (Data (specWalk d parts))"
proof (induction parts arbitrary: d)
  case Nil
  show ?case by simp
next
  case (Cons part parts)
  then have p: "\<not> inheritedName rt part"
    and ih: "\<And>d'. walk rt (Data d') parts = Inr (Data (specWalk d' parts))"
    by simp_all
  show ?case
  proof (cases d)
    case (JArr xs)
    then show ?thesis
      using lookupProperty_plain(2) [OF p, of xs] ih
      by (simp add: truthy_def typeof_def js_in_def js_get_def isObject_def specKey_def
          split: option.splits)
  next
    case (JObj props)
    then show ?thesis
      using lookupProperty_plain(1) [OF p, of props] ih
      by (simp add: truthy_def typeof_def js_in_def js_get_def isObject_def specKey_def
          split: option.splits)
  qed (simp_all add: truthy_def typeof_def specKey_def)
qed


lemma getAttributeValue_plain:
  assumes "plainPath rt attr"
  shows "getAttributeValue rt ctx attr = Inr (Data (specResolve (attributes ctx) attr))"
proof -
  from assms have p: "\<not> inheritedName rt attr"
    and ps: "list_all (\<lambda>part. \<not> inheritedName rt part) (specSegments attr)"
    by (simp_all add: plainPath_def)
  have w: "walk rt (Data (JObj (attributes ctx))) (split (of_char CHR ''.'') attr)
      = Inr (Data (specWalk (JObj (attributes ctx)) (specSegments attr)))"
    using walk_specWalk [OF ps, of "JObj (attributes ctx)"] by (simp only: split_specSegments)
  show ?thesis
    using lookupProperty_plain(1) [OF p, of "attributes ctx"] w
    by (simp add: getAttributeValue_def js_in_def js_get_def isObject_def specResolve_def
        split: option.splits)
qed

lemma segments_tags_0: "specSegments (js ''tags.0'') = [js ''tags'', js ''0'']"
  by (simp add: specSegments.simps js_def)

lemma segments_tags_length: "specSegments (js ''tags.length'') = [js ''tags'', js ''length'']"
  by (simp add: specSegments.simps js_def)

lemma segments_tags_1: "specSegments (js ''tags.1'') = [js ''tags'', js ''1'']"
  by (simp add: specSegments.simps js_def)

lemma segments_tags_map: "specSegments (js ''tags.map'') = [js ''tags'', js ''map'']"
  by (simp add: specSegments.simps js_def)

lemma segments_user_plan: "specSegments (js ''user.plan'') = [js ''user'', js ''plan'']"
  by (simp add: specSegments.simps js_def)

lemma segments_user_age: "specSegments (js ''user.age'') = [js ''user'', js ''age'']"
  by (simp add: specSegments.simps js_def)

lemma segments_user_n_x:
  "specSegments (js ''user.n.x'') = [js ''user'', js ''n'', js ''x'']"
  by (simp add: specSegments.simps js_def)

lemma segments_plan_x: "specSegments (js ''plan.x'') = [js ''plan'', js ''x'']"
  by (simp add: specSegments.simps js_def)

lemma segments_user_constructor:
  "specSegments (js ''user.constructor'') = [js ''user'', js ''constructor'']"
  by (simp add: specSegments.simps js_def)

lemma segments_toString: "specSegments (js ''toString'') = [js ''toString'']"
  by (simp add: specSegments.simps js_def)


lemma sample_names:
  "\<not> inheritedName sampleRuntime (js ''tags'')"
  "\<not> inheritedName sampleRuntime (js ''0'')"
  "\<not> inheritedName sampleRuntime (js ''1'')"
  "\<not> inheritedName sampleRuntime (js ''length'')"
  "\<not> inheritedName sampleRuntime (js ''user'')"
  "\<not> inheritedName sampleRuntime (js ''plan'')"
  "\<not> inheritedName sampleRuntime (js ''age'')"
  "\<not> inheritedName sampleRuntime (js ''n'')"
  "\<not> inheritedName sampleRuntime (js ''x'')"
  "\<not> inheritedName sampleRuntime (js ''tags.0'')"
  "\<not> inheritedName sampleRuntime (js ''tags.1'')"
  "\<not> inheritedName sampleRuntime (js ''tags.length'')"
  "\<not> inheritedName sampleRuntime (js ''user.plan'')"
  "\<not> inheritedName sampleRuntime (js ''user.age'')"
  "\<not> inheritedName sampleRuntime (js ''user.n.x'')"
  "\<not> inheritedName sampleRuntime (js ''plan.x'')"
  by (simp_all add: inheritedName_def objectPrototypeKeys_def sampleRuntime_def)

lemma sample_paths:
  "plainPath sampleRuntime (js ''tags.0'')"
  "plainPath sampleRuntime (js ''tags.1'')"
  "plainPath sampleRuntime (js ''tags.length'')"
  "plainPath sampleRuntime (js ''user.plan'')"
  "plainPath sampleRuntime (js ''user.age'')"
  "plainPath sampleRuntime (js ''user.n.x'')"
  "plainPath sampleRuntime (js ''plan.x'')"
  by (simp_all add: plainPath_def sample_names segments_tags_0 segments_tags_1
      segments_tags_length segments_user_plan segments_user_age segments_user_n_x
      segments_plan_x)

lemma sample_resolved:
  "specResolve (attributes sampleContext) (js ''tags.0'') = JStr (js ''beta'')"
  "specResolve (attributes sampleContext) (js ''tags.1'') = JUndefined"
  "specResolve (attributes sampleContext) (js ''tags.length'') = JNum (Fin 1)"
  "specResolve (attributes sampleContext) (js ''user.plan'') = JStr (js ''literal'')"
  "specResolve (attributes sampleContext) (js ''user.age'') = JUndefined"
  "specResolve (attributes sampleContext) (js ''plan.x'') = JUndefined"
  "specResolve (attributes nestedContext) (js ''user.plan'') = JStr (js ''pro'')"
  "specResolve (attributes nestedContext) (js ''user.n.x'') = JUndefined"
  by (simp_all add: specResolve_def sampleContext_def nestedContext_def specKey_def
      specListKey_def decimal_0 segments_tags_0 segments_tags_1
      segments_tags_length segments_user_plan segments_user_age segments_user_n_x
      segments_plan_x)

text \<open>
  C7, as the code has it. Attribute resolution first looks the full path up as one
  literal key of the attribute map, whatever the path is. For a path that is no name a
  mapping or a list inherits (\<open>toString\<close>, \<open>constructor\<close>, \<open>__proto__\<close>, \<open>map\<close>, ...)
  and has no such name as a segment: only if the literal key is absent is the path split
  on \<open>.\<close> and walked one segment at a time, through mappings and through lists, whose
  keys are their indices in decimal and \<open>length\<close>; the walk gives "not found" as soon as
  a segment is missing or the value at hand is neither a mapping nor a list.
\<close>

theorem getAttributeValue_resolves:
  "(map_of (attributes ctx) attr = Some v \<longrightarrow> getAttributeValue rt ctx attr = Inr (Data v))
   \<and> (plainPath rt attr \<longrightarrow>
        getAttributeValue rt ctx attr = Inr (Data (specResolve (attributes ctx) attr)))"
  using getAttributeValue_own [of ctx attr v rt] getAttributeValue_plain [of rt attr ctx]
  by blast

theorem getAttributeValue_resolves_witness:
  "getAttributeValue sampleRuntime sampleContext (js ''user.plan'')
     = Inr (Data (JStr (js ''literal'')))
   \<and> getAttributeValue sampleRuntime nestedContext (js ''user.plan'')
     = Inr (Data (JStr (js ''pro'')))
   \<and> getAttributeValue sampleRuntime nestedContext (js ''user.n.x'') = Inr (Data JUndefined)
   \<and> getAttributeValue sampleRuntime sampleContext (js ''user.age'') = Inr (Data JUndefined)
   \<and> getAttributeValue sampleRuntime sampleContext (js ''plan.x'') = Inr (Data JUndefined)
   \<and> getAttributeValue sampleRuntime sampleContext (js ''tags.length'')
     = Inr (Data (JNum (Fin 1)))
   \<and> getAttributeValue sampleRuntime sampleContext (js ''tags.1'') = Inr (Data JUndefined)"
proof -
  have "map_of (attributes sampleContext) (js ''user.plan'') = Some (JStr (js ''literal''))"
    by (simp add: sampleContext_def)
  then have 1: "getAttributeValue sampleRuntime sampleContext (js ''user.plan'')
     = Inr (Data (JStr (js ''literal'')))"
    using getAttributeValue_resolves [of sampleContext "js ''user.plan''" "JStr (js ''literal'')"
        sampleRuntime]
    by blast
  have 2: "getAttributeValue sampleRuntime nestedContext (js ''user.plan'')
     = Inr (Data (JStr (js ''pro'')))"
    using getAttributeValue_resolves [of nestedContext "js ''user.plan''" _ sampleRuntime]
      sample_paths(4) sample_resolved(7)
    by simp
  have 3: "getAttributeValue sampleRuntime nestedContext (js ''user.n.x'') = Inr (Data JUndefined)"
    using getAttributeValue_resolves [of nestedContext "js ''user.n.x''" _ sampleRuntime]
      sample_paths(6) sample_resolved(8)
    by simp
  have 4: "getAttributeValue sampleRuntime sampleContext (js ''user.age'') = Inr (Data JUndefined)"
    using getAttributeValue_resolves [of sampleContext "js ''user.age''" _ sampleRuntime]
      sample_paths(5) sample_resolved(5)
    by simp
  have 5: "getAttributeValue sampleRuntime sampleContext (js ''plan.x'') = Inr (Data JUndefined)"
    using getAttributeValue_resolves [of sampleContext "js ''plan.x''" _ sampleRuntime]
      sample_paths(7) sample_resolved(6)
    by simp
  have 6: "getAttributeValue sampleRuntime sampleContext (js ''tags.length'')
     = Inr (Data (JNum (Fin 1)))"
    using getAttributeValue_resolves [of sampleContext "js ''tags.length''" _ sampleRuntime]
      sample_paths(3) sample_resolved(3)
    by simp
  have 7: "getAttributeValue sampleRuntime sampleContext (js ''tags.1'') = Inr (Data JUndefined)"
    using getAttributeValue_resolves [of sampleContext "js ''tags.1''" _ sampleRuntime]
      sample_paths(2) sample_resolved(2)
    by simp
  from 1 2 3 4 5 6 7 show ?thesis
    by blast
qed

lemma sample_inherited:
  "getAttributeValue sampleRuntime sampleContext (js ''toString'')
     = Inr (Native (ObjectMethod (js ''toString'')))"
  "getAttributeValue sampleRuntime sampleContext (js ''user.constructor'')
     = Inr (Native (ObjectMethod (js ''constructor'')))"
  "getAttributeValue sampleRuntime sampleContext (js ''tags.map'')
     = Inr (Native (ArrayMethod (js ''map'')))"
proof -
  show "getAttributeValue sampleRuntime sampleContext (js ''toString'')
     = Inr (Native (ObjectMethod (js ''toString'')))"
    by (simp add: getAttributeValue_def js_in_def js_get_def isObject_def lookupProperty_def
        objectChain_def objectPrototypeProperty_def objectPrototypeKeys_def sampleContext_def)
  have u: "lookupProperty sampleRuntime (Data (JObj (attributes sampleContext)))
      (js ''user.constructor'') = None"
    "lookupProperty sampleRuntime (Data (JObj (attributes sampleContext))) (js ''user'')
      = Some (Data (JObj [(js ''plan'', JStr (js ''pro''))]))"
    "lookupProperty sampleRuntime (Data (JObj [(js ''plan'', JStr (js ''pro''))]))
      (js ''constructor'') = Some (Native (ObjectMethod (js ''constructor'')))"
    by (simp_all add: lookupProperty_def objectChain_def objectPrototypeProperty_def
        objectPrototypeKeys_def sampleContext_def)
  show "getAttributeValue sampleRuntime sampleContext (js ''user.constructor'')
     = Inr (Native (ObjectMethod (js ''constructor'')))"
    unfolding getAttributeValue_def split_specSegments segments_user_constructor
    by (simp add: js_in_def js_get_def isObject_def u truthy_def typeof_def)
  have t: "lookupProperty sampleRuntime (Data (JObj (attributes sampleContext)))
      (js ''tags.map'') = None"
    "lookupProperty sampleRuntime (Data (JObj (attributes sampleContext))) (js ''tags'')
      = Some (Data (JArr [JStr (js ''beta'')]))"
    "lookupProperty sampleRuntime (Data (JArr [JStr (js ''beta'')])) (js ''map'')
      = Some (Native (ArrayMethod (js ''map'')))"
    by (simp_all add: lookupProperty_def objectChain_def objectPrototypeProperty_def
        objectPrototypeKeys_def sampleContext_def array_props_specListKey specListKey_def
        decimal_0 arrayPrototypeProperty_def sampleRuntime_def)
  show "getAttributeValue sampleRuntime sampleContext (js ''tags.map'')
     = Inr (Native (ArrayMethod (js ''map'')))"
    unfolding getAttributeValue_def split_specSegments segments_tags_map
    by (simp add: js_in_def js_get_def isObject_def t truthy_def typeof_def)
qed

text \<open>
  C7 as stated fails in two ways. A list met mid-path is walked: with the attribute
  \<open>tags\<close> the list of the one string "beta" and no literal key \<open>tags.0\<close>, the path
  \<open>tags.0\<close> resolves to "beta" although the value met is no mapping. And a segment
  missing from a mapping is found when the mapping inherits it: \<open>toString\<close>,
  \<open>user.constructor\<close> and \<open>tags.map\<close> resolve to built-in functions, not to
  "not found".
\<close>

theorem getAttributeValue_list_counterexample:
  "map_of (attributes sampleContext) (js ''tags.0'') = None
   \<and> map_of (attributes sampleContext) (js ''tags'') = Some (JArr [JStr (js ''beta'')])
   \<and> getAttributeValue sampleRuntime sampleContext (js ''tags.0'')
     = Inr (Data (JStr (js ''beta'')))
   \<and> map_of (attributes sampleContext) (js ''toString'') = None
   \<and> getAttributeValue sampleRuntime sampleContext (js ''toString'')
     = Inr (Native (ObjectMethod (js ''toString'')))
   \<and> getAttributeValue sampleRuntime sampleContext (js ''user.constructor'')
     = Inr (Native (ObjectMethod (js ''constructor'')))
   \<and> getAttributeValue sampleRuntime sampleContext (js ''tags.map'')
     = Inr (Native (ArrayMethod (js ''map'')))"
proof -
  have "getAttributeValue sampleRuntime sampleContext (js ''tags.0'')
     = Inr (Data (JStr (js ''beta'')))"
    using getAttributeValue_plain [OF sample_paths(1), of sampleContext] sample_resolved(1)
    by simp
  moreover have "map_of (attributes sampleContext) (js ''tags.0'') = None"
    "map_of (attributes sampleContext) (js ''tags'') = Some (JArr [JStr (js ''beta'')])"
    "map_of (attributes sampleContext) (js ''toString'') = None"
    by (simp_all add: sampleContext_def)
  ultimately show ?thesis
    using sample_inherited by blast
qed

end
